theory Spec2Isabelle
  imports Complex_Main
begin

section \<open>Run lifecycle and trace-streaming relay (backend-go/worker\_manager.go)\<close>

text \<open>
  The Go backend keeps an in-memory table of runs, creates a run from one call to the
  Python trace generator, and relays a run's frames over a WebSocket connection, asking the
  Python explainer for one explanation per frame. The embedding below follows the Go
  functions one by one. Everything the functions do to the outside (HTTP posts, socket
  writes, drawing a UUID) is explicit: the library and the collaborators are an
  environment record \<open>env\<close> of answers, and the mutable state together with the logs of
  what was sent is a record \<open>world\<close> that every function takes and returns.
\<close>

subsection \<open>Values\<close>

text \<open>
  A \<open>float64\<close>. Finite values are identified with the rational they denote; the two
  infinities and NaN are separate values. The model stores, passes on and compares such
  values and does no arithmetic on them.
\<close>

datatype float64 = Fin rat | PInf | NInf | NaN

text \<open>
  The dynamic values that occur in a \<open>map[string]interface{}\<close> of the program: what
  \<open>encoding/json\<close> decodes into an \<open>interface{}\<close> (nil, bool, float64, string, slice,
  map) and what the code itself stores (int, *int, []int, map[string]string).
\<close>

datatype gval =
    GNil
  | GBool bool
  | GFloat float64
  | GInt int
  | GIntPtr "int option"
  | GStr string
  | GIntSlice "int list"
  | GSlice "gval list"
  | GStrMap "string \<Rightarrow> string option"
  | GMap "string \<Rightarrow> gval option"

type_synonym gmap = "string \<Rightarrow> gval option"

record BehaviorSignal =
  PauseDuration :: float64
  ReplayCount :: int
  SpeedMultiplier :: float64
  HoverIndex :: "int option"
  ScrollDepth :: "int option"

record RunState =
  RunID :: string
  Trace :: "gmap list"
  CurrentStep :: int
  BehaviorSignals :: "int \<Rightarrow> BehaviorSignal option"

subsection \<open>Environment and state\<close>

text \<open>The answer of \<open>http.Post\<close>: the status code and the body as read by the caller.\<close>

record http_resp =
  StatusCode :: int
  RespBody :: string

text \<open>
  The library calls and collaborators of the program. An error is the text of the Go
  \<open>error\<close> (\<open>Inl\<close>). \<open>Post\<close> and \<open>WriteErr\<close> take the number of earlier calls, so that
  the same request may be answered differently at different times.
  \<^item> \<open>Marshal\<close>: \<open>json.Marshal\<close> of a request body;
  \<^item> \<open>Post k url body\<close>: the \<open>k\<close>-th \<open>http.Post\<close>;
  \<^item> \<open>DecodeTrace\<close>, \<open>DecodeObject\<close>: \<open>json.Decode\<close> of a response body into
    \<open>struct{Trace}\<close> and into a map;
  \<^item> \<open>WriteErr k\<close>: the error of the \<open>k\<close>-th \<open>WriteJSON\<close> on the connection, if it fails;
  \<^item> \<open>DecodeCreate\<close>: \<open>json.Decode\<close> of the create-run body into \<open>(AlgorithmID, Array)\<close>,
    \<open>None\<close> when decoding fails;
  \<^item> \<open>Sscanf_f\<close>: what \<open>fmt.Sscanf(s, "%f", &x)\<close> stores in \<open>x\<close>, \<open>None\<close> when the scan
    fails and \<open>x\<close> keeps its value;
  \<^item> \<open>NewUUID k\<close>: the string of the \<open>k\<close>-th \<open>uuid.New()\<close>;
  \<^item> \<open>UpgradeOK\<close>: whether \<open>upgrader.Upgrade\<close> succeeds.
\<close>

record env =
  Marshal :: "gmap \<Rightarrow> string + string"
  Post :: "nat \<Rightarrow> string \<Rightarrow> string \<Rightarrow> string + http_resp"
  DecodeTrace :: "string \<Rightarrow> string + gmap list"
  DecodeObject :: "string \<Rightarrow> string + gmap"
  WriteErr :: "nat \<Rightarrow> string option"
  DecodeCreate :: "string \<Rightarrow> (string \<times> int list) option"
  Sscanf_f :: "string \<Rightarrow> float64 option"
  NewUUID :: "nat \<Rightarrow> string"
  UpgradeOK :: bool

text \<open>
  The state: the global table \<open>runs\<close>, and the effects so far.
  \<^item> \<open>uuid_draws\<close>: how many UUIDs were drawn;
  \<^item> \<open>posts\<close>: every \<open>http.Post\<close> made, as (url, body);
  \<^item> \<open>explain_calls\<close>: the arguments (frame, userBehavior) of every \<open>callPythonExplain\<close>;
  \<^item> \<open>explain_results\<close>: what each of these calls returned, in the same order;
  \<^item> \<open>outbox\<close>: the messages written to the viewer connection, in order;
  \<^item> \<open>writes\<close>: how many \<open>WriteJSON\<close> calls were made on the connection, failed ones
    included.
  Log output (\<open>fmt.Printf\<close>, \<open>log.Printf\<close>), response headers and the pacing wait
  \<open>time.Sleep\<close> change none of these and are left out.
\<close>

record world =
  runs :: "string \<Rightarrow> RunState option"
  uuid_draws :: nat
  posts :: "(string \<times> string) list"
  explain_calls :: "(gmap \<times> gmap) list"
  explain_results :: "(string + gmap) list"
  outbox :: "gmap list"
  writes :: nat

definition pythonBaseURL :: string where
  "pythonBaseURL = ''http://localhost:8000''"

subsection \<open>Calls to the Python backend\<close>

definition callPythonExecute ::
  "env \<Rightarrow> string \<Rightarrow> int list \<Rightarrow> world \<Rightarrow> (string + gmap list) \<times> world" where
  "callPythonExecute e algorithmID array w =
     (let requestBody = [''algorithmId'' \<mapsto> GStr algorithmID, ''array'' \<mapsto> GIntSlice array] in
      case Marshal e requestBody of
        Inl err \<Rightarrow> (Inl err, w)
      | Inr jsonData \<Rightarrow>
          (let url = pythonBaseURL @ ''/execute'';
               w1 = w\<lparr>posts := posts w @ [(url, jsonData)]\<rparr> in
           case Post e (length (posts w)) url jsonData of
             Inl err \<Rightarrow> (Inl (''failed to call Python backend: '' @ err), w1)
           | Inr resp \<Rightarrow>
               if StatusCode resp \<noteq> 200
               then (Inl (''Python backend returned error: '' @ RespBody resp), w1)
               else (case DecodeTrace e (RespBody resp) of
                       Inl err \<Rightarrow> (Inl err, w1)
                     | Inr tr \<Rightarrow> (Inr tr, w1))))"

text \<open>
  \<open>explainRequest\<close> is the body of \<open>callPythonExplain\<close>; \<open>callPythonExplain\<close> adds
  the two log entries of the call.
\<close>

definition explainRequest ::
  "env \<Rightarrow> gmap \<Rightarrow> gmap \<Rightarrow> world \<Rightarrow> (string + gmap) \<times> world" where
  "explainRequest e frame userBehavior w =
     (let requestBody = [''frame'' \<mapsto> GMap frame, ''userBehavior'' \<mapsto> GMap userBehavior] in
      case Marshal e requestBody of
        Inl err \<Rightarrow> (Inl err, w)
      | Inr jsonData \<Rightarrow>
          (let url = pythonBaseURL @ ''/explain-step'';
               w1 = w\<lparr>posts := posts w @ [(url, jsonData)]\<rparr> in
           case Post e (length (posts w)) url jsonData of
             Inl err \<Rightarrow> (Inl (''failed to call Python backend: '' @ err), w1)
           | Inr resp \<Rightarrow>
               if StatusCode resp \<noteq> 200
               then (Inl (''Python backend returned error: '' @ RespBody resp), w1)
               else (case DecodeObject e (RespBody resp) of
                       Inl err \<Rightarrow> (Inl err, w1)
                     | Inr result \<Rightarrow> (Inr result, w1))))"

definition callPythonExplain ::
  "env \<Rightarrow> gmap \<Rightarrow> gmap \<Rightarrow> world \<Rightarrow> (string + gmap) \<times> world" where
  "callPythonExplain e frame userBehavior w =
     (case explainRequest e frame userBehavior w of
        (res, w1) \<Rightarrow>
          (res, w1\<lparr>explain_calls := explain_calls w1 @ [(frame, userBehavior)],
                   explain_results := explain_results w1 @ [res]\<rparr>))"

subsection \<open>Behavior signals\<close>

definition getBehaviorSignal :: "world \<Rightarrow> string \<Rightarrow> int \<Rightarrow> gmap" where
  "getBehaviorSignal w runID stepIndex =
     (case runs w runID of
        None \<Rightarrow>
          [''pauseDuration'' \<mapsto> GFloat (Fin 0),
           ''replayCount'' \<mapsto> GInt 0,
           ''speedMultiplier'' \<mapsto> GFloat (Fin 1)]
      | Some run \<Rightarrow>
          (case BehaviorSignals run stepIndex of
             Some signal \<Rightarrow>
               [''pauseDuration'' \<mapsto> GFloat (PauseDuration signal),
                ''replayCount'' \<mapsto> GInt (ReplayCount signal),
                ''speedMultiplier'' \<mapsto> GFloat (SpeedMultiplier signal),
                ''hoverIndex'' \<mapsto> GIntPtr (HoverIndex signal),
                ''scrollDepth'' \<mapsto> GIntPtr (ScrollDepth signal)]
           | None \<Rightarrow>
               [''pauseDuration'' \<mapsto> GFloat (Fin 0),
                ''replayCount'' \<mapsto> GInt 0,
                ''speedMultiplier'' \<mapsto> GFloat (Fin 1)]))"

text \<open>
  Lines 159-160 of \<open>streamRun\<close>: the summary handed to the explainer for step \<open>i\<close> is the
  map of \<open>getBehaviorSignal\<close> with its \<open>speedMultiplier\<close> entry overwritten.
\<close>

definition userBehaviorFor :: "world \<Rightarrow> string \<Rightarrow> int \<Rightarrow> float64 \<Rightarrow> gmap" where
  "userBehaviorFor w runID i speedMultiplier =
     (getBehaviorSignal w runID i)(''speedMultiplier'' \<mapsto> GFloat speedMultiplier)"

subsection \<open>The viewer connection and the messages\<close>

definition WriteJSON :: "env \<Rightarrow> gmap \<Rightarrow> world \<Rightarrow> string option \<times> world" where
  "WriteJSON e v w =
     (case WriteErr e (writes w) of
        Some err \<Rightarrow> (Some err, w\<lparr>writes := Suc (writes w)\<rparr>)
      | None \<Rightarrow> (None, w\<lparr>outbox := outbox w @ [v], writes := Suc (writes w)\<rparr>))"

definition traceMsg :: "gmap \<Rightarrow> gmap" where
  "traceMsg frame = [''type'' \<mapsto> GStr ''TRACE'', ''data'' \<mapsto> GMap frame]"

definition explainMsg :: "gmap \<Rightarrow> gmap" where
  "explainMsg explanation = [''type'' \<mapsto> GStr ''EXPLANATION'', ''data'' \<mapsto> GMap explanation]"

definition endMsg :: gmap where
  "endMsg = [''type'' \<mapsto> GStr ''END'',
             ''data'' \<mapsto> GMap [''message'' \<mapsto> GStr ''Visualization complete'']]"

definition errorMsg :: "string \<Rightarrow> gmap" where
  "errorMsg err = [''type'' \<mapsto> GStr ''ERROR'', ''data'' \<mapsto> GStrMap [''message'' \<mapsto> err]]"

definition fallbackExplanation :: gmap where
  "fallbackExplanation =
     [''mode'' \<mapsto> GStr ''conceptual'',
      ''explanation'' \<mapsto> GStr ''Processing this step...'',
      ''short_hint'' \<mapsto> GStr ''Watch the visualization'',
      ''confidence_estimate'' \<mapsto> GStr ''medium'',
      ''followup_question'' \<mapsto> GStr '''']"

text \<open>
  Lines 163-174 of \<open>streamRun\<close>: the explanation that is sent, the fixed fallback when
  the call returned an error.
\<close>

definition explanationOf :: "string + gmap \<Rightarrow> gmap" where
  "explanationOf res = (case res of Inl err \<Rightarrow> fallbackExplanation | Inr explanation \<Rightarrow> explanation)"

subsection \<open>The relay\<close>

text \<open>
  The loop of \<open>streamRun\<close> over the remaining frames, \<open>i\<close> the index of the first of them.
  The first component of the result is the error the loop returns with, \<open>None\<close> when it
  runs to the end. The multiplier reaches the state through the summary of each step. The
  frame delay \<open>time.Duration(baseDelay/speedMultiplier) * time.Millisecond\<close> is
  \<open>float64\<close> arithmetic whose only use is the argument of \<open>time.Sleep\<close>; it is not
  modelled.
\<close>

fun streamFrames ::
  "env \<Rightarrow> string \<Rightarrow> float64 \<Rightarrow> nat \<Rightarrow> gmap list \<Rightarrow> world \<Rightarrow> string option \<times> world" where
  "streamFrames e runID speedMultiplier i [] w = (None, w)"
| "streamFrames e runID speedMultiplier i (frame # rest) w =
     (case WriteJSON e (traceMsg frame) w of
        (Some err, w1) \<Rightarrow> (Some (''failed to send trace: '' @ err), w1)
      | (None, w1) \<Rightarrow>
          (let userBehavior = userBehaviorFor w1 runID (int i) speedMultiplier in
           case callPythonExplain e frame userBehavior w1 of (res, w2) \<Rightarrow>
             (case WriteJSON e (explainMsg (explanationOf res)) w2 of
                (Some err, w3) \<Rightarrow> (Some (''failed to send explanation: '' @ err), w3)
              | (None, w3) \<Rightarrow> streamFrames e runID speedMultiplier (Suc i) rest w3)))"

definition streamRun :: "env \<Rightarrow> string \<Rightarrow> float64 \<Rightarrow> world \<Rightarrow> string option \<times> world" where
  "streamRun e runID speedMultiplier w =
     (case runs w runID of
        None \<Rightarrow> (Some (''run not found: '' @ runID), w)
      | Some run \<Rightarrow>
          (case streamFrames e runID speedMultiplier 0 (Trace run) w of
             (Some err, w1) \<Rightarrow> (Some err, w1)
           | (None, w1) \<Rightarrow> WriteJSON e endMsg w1))"

subsection \<open>Creating a run\<close>

definition createRun ::
  "env \<Rightarrow> string \<Rightarrow> int list \<Rightarrow> world \<Rightarrow> (string + RunState) \<times> world" where
  "createRun e algorithmID array w =
     (case callPythonExecute e algorithmID array w of
        (Inl err, w1) \<Rightarrow> (Inl err, w1)
      | (Inr tr, w1) \<Rightarrow>
          (let runID = NewUUID e (uuid_draws w1);
               run = \<lparr>RunID = runID, Trace = tr, CurrentStep = 0, BehaviorSignals = Map.empty\<rparr> in
           (Inr run, w1\<lparr>uuid_draws := Suc (uuid_draws w1), runs := (runs w1)(runID \<mapsto> run)\<rparr>)))"

subsection \<open>The HTTP handlers\<close>

text \<open>
  A response is its status code and its body: the text given to \<open>http.Error\<close>, the JSON
  object encoded into the response, or nothing.
\<close>

datatype payload = NoBody | Text string | JsonBody "string \<Rightarrow> string option"

record http_response =
  Status :: nat
  Payload :: payload

record http_request =
  Method :: string
  Body :: string

definition http_Error :: "string \<Rightarrow> nat \<Rightarrow> http_response" where
  "http_Error msg code = \<lparr>Status = code, Payload = Text msg\<rparr>"

definition handleRunCreate :: "env \<Rightarrow> http_request \<Rightarrow> world \<Rightarrow> http_response \<times> world" where
  "handleRunCreate e r w =
     (if Method r = ''OPTIONS'' then (\<lparr>Status = 200, Payload = NoBody\<rparr>, w)
      else if Method r \<noteq> ''POST'' then (http_Error ''Method not allowed'' 405, w)
      else (case DecodeCreate e (Body r) of
              None \<Rightarrow> (http_Error ''Invalid request body'' 400, w)
            | Some (algorithmID, array) \<Rightarrow>
                if length array = 0 then (http_Error ''Array cannot be empty'' 400, w)
                else (case createRun e algorithmID array w of
                        (Inl err, w1) \<Rightarrow> (http_Error (''Failed to create run: '' @ err) 500, w1)
                      | (Inr run, w1) \<Rightarrow>
                          (\<lparr>Status = 200, Payload = JsonBody [''runId'' \<mapsto> RunID run]\<rparr>, w1))))"

text \<open>\<open>r.URL.Query().Get(key)\<close>: the first value of the key, the empty string without one.\<close>

definition Query_Get :: "(string \<times> string) list \<Rightarrow> string \<Rightarrow> string" where
  "Query_Get q k = (case map_of q k of None \<Rightarrow> '''' | Some v \<Rightarrow> v)"

text \<open>Lines 309-313 of \<open>handleWebSocket\<close>: the multiplier read from the \<open>speed\<close> parameter.\<close>

definition speedParam :: "env \<Rightarrow> string \<Rightarrow> float64" where
  "speedParam e speedStr =
     (if speedStr \<noteq> ''''
      then (case Sscanf_f e speedStr of Some v \<Rightarrow> v | None \<Rightarrow> Fin 1)
      else Fin 1)"

datatype ws_result = Rejected http_response | NotUpgraded | Served "string option"

definition handleWebSocket ::
  "env \<Rightarrow> (string \<times> string) list \<Rightarrow> world \<Rightarrow> ws_result \<times> world" where
  "handleWebSocket e q w =
     (let runID = Query_Get q ''runId'' in
      if runID = '''' then (Rejected (http_Error ''Missing runId parameter'' 400), w)
      else (let speedMultiplier = speedParam e (Query_Get q ''speed'') in
            if \<not> UpgradeOK e then (NotUpgraded, w)
            else (case streamRun e runID speedMultiplier w of
                    (Some err, w1) \<Rightarrow> (Served (Some err), snd (WriteJSON e (errorMsg err) w1))
                  | (None, w1) \<Rightarrow> (Served None, w1))))"

subsection \<open>Notions used to state the properties\<close>

text \<open>
  The message sequence TRACE(0), EXPLANATION(0), TRACE(1), EXPLANATION(1), ... for the
  frames \<open>fs\<close> and the explanations \<open>xs\<close>.
\<close>

definition pairMsgs :: "gmap list \<Rightarrow> gmap list \<Rightarrow> gmap list" where
  "pairMsgs fs xs = concat (map (\<lambda>(f, x). [traceMsg f, explainMsg x]) (zip fs xs))"

text \<open>The number of messages of a type in a sequence.\<close>

definition countType :: "string \<Rightarrow> gmap list \<Rightarrow> nat" where
  "countType t ms = length (filter (\<lambda>v. v ''type'' = Some (GStr t)) ms)"

text \<open>
  The explainer calls of a relay over the frames \<open>fs\<close>, the first of them with index \<open>i\<close>:
  each frame with the summary of its step.
\<close>

definition callsFor ::
  "world \<Rightarrow> string \<Rightarrow> float64 \<Rightarrow> nat \<Rightarrow> gmap list \<Rightarrow> (gmap \<times> gmap) list" where
  "callsFor w runID m i fs =
     map (\<lambda>(j, f). (f, userBehaviorFor w runID (int j) m)) (enumerate i fs)"

text \<open>\<open>x > 0\<close> on \<open>float64\<close>.\<close>

definition positive :: "float64 \<Rightarrow> bool" where
  "positive x = (case x of Fin q \<Rightarrow> 0 < q | PInf \<Rightarrow> True | NInf \<Rightarrow> False | NaN \<Rightarrow> False)"


subsection \<open>A concrete scenario\<close>

text \<open>
  An instance of \<open>Sscanf_f\<close> for the examples. On an optionally signed, non-empty string
  of decimal digits it stores the number written, as \<open>fmt.Sscanf\<close> with \<open>%f\<close> does.
  On every other string this instance reports a failed scan; Go's scanner accepts more
  (fractions, exponents, trailing text). The general theorems hold for every \<open>Sscanf_f\<close>.
\<close>

definition digitOf :: "char \<Rightarrow> nat option" where
  "digitOf c =
     (let n = (of_char c :: nat) in if 48 \<le> n \<and> n \<le> 57 then Some (n - 48) else None)"

fun digitsValue :: "string \<Rightarrow> nat \<Rightarrow> nat option" where
  "digitsValue [] acc = Some acc"
| "digitsValue (c # cs) acc =
     (case digitOf c of None \<Rightarrow> None | Some d \<Rightarrow> digitsValue cs (10 * acc + d))"

definition scanSignedDigits :: "string \<Rightarrow> float64 option" where
  "scanSignedDigits s =
     (case s of
        [] \<Rightarrow> None
      | c # cs \<Rightarrow>
          if c = CHR ''-'' then
            (if cs = [] then None
             else (case digitsValue cs 0 of None \<Rightarrow> None | Some n \<Rightarrow> Some (Fin (- of_nat n))))
          else if c = CHR ''+'' then
            (if cs = [] then None
             else (case digitsValue cs 0 of None \<Rightarrow> None | Some n \<Rightarrow> Some (Fin (of_nat n))))
          else (case digitsValue s 0 of None \<Rightarrow> None | Some n \<Rightarrow> Some (Fin (of_nat n))))"

definition frameA :: gmap where
  "frameA = [''data'' \<mapsto> GSlice [GFloat (Fin 5), GFloat (Fin 2)],
             ''highlights'' \<mapsto> GSlice [GFloat (Fin 0)]]"

definition frameB :: gmap where
  "frameB = [''data'' \<mapsto> GSlice [GFloat (Fin 2), GFloat (Fin 5)],
             ''highlights'' \<mapsto> GSlice [GFloat (Fin 1)]]"

definition demoExplanation :: gmap where
  "demoExplanation =
     [''mode'' \<mapsto> GStr ''operational'',
      ''explanation'' \<mapsto> GStr ''Comparing neighbours'',
      ''short_hint'' \<mapsto> GStr '''',
      ''confidence_estimate'' \<mapsto> GStr ''high'',
      ''followup_question'' \<mapsto> GStr '''']"

definition demoRun :: RunState where
  "demoRun =
     \<lparr>RunID = ''r1'', Trace = [frameA, frameB], CurrentStep = 0, BehaviorSignals = Map.empty\<rparr>"

definition demoWorld :: world where
  "demoWorld =
     \<lparr>runs = [''r1'' \<mapsto> demoRun], uuid_draws = 1, posts = [], explain_calls = [],
      explain_results = [], outbox = [], writes = 0\<rparr>"

text \<open>
  An environment in which every collaborator answers and every write succeeds; the
  scenarios with failures update single fields of it.
\<close>

definition demoEnv :: env where
  "demoEnv =
     \<lparr>Marshal = (\<lambda>body. Inr ''{}''),
      Post = (\<lambda>k url body. Inr \<lparr>StatusCode = 200, RespBody = ''{}''\<rparr>),
      DecodeTrace = (\<lambda>body. Inr [frameA, frameB]),
      DecodeObject = (\<lambda>body. Inr demoExplanation),
      WriteErr = (\<lambda>k. None),
      DecodeCreate = (\<lambda>body. Some (''bubble_sort'', [5, 2])),
      Sscanf_f = scanSignedDigits,
      NewUUID = (\<lambda>k. ''r2''),
      UpgradeOK = True\<rparr>"

text \<open>The run of the scenario with a signal recorded for step 1.\<close>

definition signalWorld :: world where
  "signalWorld =
     demoWorld\<lparr>runs := [''r1'' \<mapsto> demoRun\<lparr>BehaviorSignals :=
        [1 \<mapsto> \<lparr>PauseDuration = Fin 3, ReplayCount = 2, SpeedMultiplier = Fin 1,
                 HoverIndex = Some 4, ScrollDepth = None\<rparr>]\<rparr>]\<rparr>"

text \<open>The environment in which the first post is refused and the later ones are answered.\<close>

definition flakyEnv :: env where
  "flakyEnv =
     demoEnv\<lparr>Post := (\<lambda>k url body. if k = 0 then Inl ''timeout''
                                   else Inr \<lparr>StatusCode = 200, RespBody = ''{}''\<rparr>)\<rparr>"

section \<open>Properties\<close>

subsection \<open>Single steps\<close>

lemma WriteJSON_ok:
  "WriteErr e (writes w) = None \<Longrightarrow>
   WriteJSON e v w = (None, w\<lparr>outbox := outbox w @ [v], writes := Suc (writes w)\<rparr>)"
  by (simp add: WriteJSON_def)

lemma WriteJSON_fail:
  "WriteErr e (writes w) = Some err \<Longrightarrow>
   WriteJSON e v w = (Some err, w\<lparr>writes := Suc (writes w)\<rparr>)"
  by (simp add: WriteJSON_def)

lemma explainRequest_frame:
  "runs (snd (explainRequest e f ub w)) = runs w \<and>
   uuid_draws (snd (explainRequest e f ub w)) = uuid_draws w \<and>
   outbox (snd (explainRequest e f ub w)) = outbox w \<and>
   writes (snd (explainRequest e f ub w)) = writes w \<and>
   explain_calls (snd (explainRequest e f ub w)) = explain_calls w \<and>
   explain_results (snd (explainRequest e f ub w)) = explain_results w"
  by (simp add: explainRequest_def Let_def split: sum.splits)

lemma callPythonExplain_frame:
  assumes "callPythonExplain e f ub w = (res, w2)"
  shows "runs w2 = runs w" and "uuid_draws w2 = uuid_draws w" and "outbox w2 = outbox w"
    and "writes w2 = writes w" and "explain_calls w2 = explain_calls w @ [(f, ub)]"
    and "explain_results w2 = explain_results w @ [res]"
  using assms explainRequest_frame [of e f ub w]
  by (auto simp: callPythonExplain_def split: prod.splits)

lemma userBehaviorFor_cong:
  "runs w1 = runs w \<Longrightarrow> userBehaviorFor w1 runID i m = userBehaviorFor w runID i m"
  by (simp add: userBehaviorFor_def getBehaviorSignal_def)

lemma callsFor_Nil: "callsFor w runID m i [] = []"
  by (simp add: callsFor_def)

lemma callsFor_Cons:
  "callsFor w runID m i (f # fs) =
   (f, userBehaviorFor w runID (int i) m) # callsFor w runID m (Suc i) fs"
  by (simp add: callsFor_def)

lemma callsFor_cong: "runs w1 = runs w \<Longrightarrow> callsFor w1 runID m i fs = callsFor w runID m i fs"
  by (simp add: callsFor_def userBehaviorFor_cong [of w1 w])

lemma length_callsFor: "length (callsFor w runID m i fs) = length fs"
  by (simp add: callsFor_def)

lemma nth_callsFor:
  "k < length fs \<Longrightarrow>
   callsFor w runID m i fs ! k = (fs ! k, userBehaviorFor w runID (int (i + k)) m)"
  by (simp add: callsFor_def nth_enumerate_eq)

lemma pairMsgs_Nil: "pairMsgs [] xs = []"
  by (simp add: pairMsgs_def)

lemma pairMsgs_Cons: "pairMsgs (f # fs) (x # xs) = traceMsg f # explainMsg x # pairMsgs fs xs"
  by (simp add: pairMsgs_def)

subsection \<open>One iteration of the loop\<close>

lemma streamFrames_trace_fails:
  assumes "WriteErr e (writes w) = Some err"
  shows "streamFrames e runID m i (f # fs) w =
         (Some (''failed to send trace: '' @ err), w\<lparr>writes := Suc (writes w)\<rparr>)"
  using assms by (simp add: WriteJSON_fail)

lemma streamFrames_explanation_fails:
  assumes "WriteErr e (writes w) = None" and "WriteErr e (Suc (writes w)) = Some err"
      and "callPythonExplain e f (userBehaviorFor w runID (int i) m)
             (w\<lparr>outbox := outbox w @ [traceMsg f], writes := Suc (writes w)\<rparr>) = (res, w2)"
  shows "streamFrames e runID m i (f # fs) w =
         (Some (''failed to send explanation: '' @ err), w2\<lparr>writes := Suc (Suc (writes w))\<rparr>)"
proof -
  let ?w1 = "w\<lparr>outbox := outbox w @ [traceMsg f], writes := Suc (writes w)\<rparr>"
  have ub: "userBehaviorFor ?w1 runID (int i) m = userBehaviorFor w runID (int i) m"
    by (rule userBehaviorFor_cong) simp
  have "writes w2 = Suc (writes w)"
    using callPythonExplain_frame(4) [OF assms(3)] by simp
  then show ?thesis
    using assms by (simp add: WriteJSON_ok ub Let_def WriteJSON_def)
qed

lemma streamFrames_step:
  assumes "WriteErr e (writes w) = None" and "WriteErr e (Suc (writes w)) = None"
      and "callPythonExplain e f (userBehaviorFor w runID (int i) m)
             (w\<lparr>outbox := outbox w @ [traceMsg f], writes := Suc (writes w)\<rparr>) = (res, w2)"
  shows "streamFrames e runID m i (f # fs) w =
         streamFrames e runID m (Suc i) fs
           (w2\<lparr>outbox := outbox w @ [traceMsg f, explainMsg (explanationOf res)],
               writes := Suc (Suc (writes w))\<rparr>)"
proof -
  let ?w1 = "w\<lparr>outbox := outbox w @ [traceMsg f], writes := Suc (writes w)\<rparr>"
  have ub: "userBehaviorFor ?w1 runID (int i) m = userBehaviorFor w runID (int i) m"
    by (rule userBehaviorFor_cong) simp
  have "outbox w2 = outbox w @ [traceMsg f]" and "writes w2 = Suc (writes w)"
    using callPythonExplain_frame(3,4) [OF assms(3)] by simp_all
  then show ?thesis
    using assms by (simp add: WriteJSON_ok ub Let_def WriteJSON_def)
qed

declare streamFrames.simps(2) [simp del]

subsection \<open>The whole loop\<close>

lemma streamFrames_prefix:
  assumes "K \<le> length fs"
      and "\<forall>j < 2 * K. WriteErr e (writes w + j) = None"
  shows "\<exists>rs w1. length rs = K \<and>
           streamFrames e runID m i fs w = streamFrames e runID m (i + K) (drop K fs) w1 \<and>
           explain_results w1 = explain_results w @ rs \<and>
           outbox w1 = outbox w @ pairMsgs (take K fs) (map explanationOf rs) \<and>
           writes w1 = writes w + 2 * K \<and>
           explain_calls w1 = explain_calls w @ callsFor w runID m i (take K fs) \<and>
           runs w1 = runs w"
  using assms
proof (induction K arbitrary: fs i w)
  case 0
  have "length ([] :: (string + gmap) list) = 0 \<and>
        streamFrames e runID m i fs w = streamFrames e runID m (i + 0) (drop 0 fs) w \<and>
        explain_results w = explain_results w @ [] \<and>
        outbox w = outbox w @ pairMsgs (take 0 fs) (map explanationOf []) \<and>
        writes w = writes w + 2 * 0 \<and>
        explain_calls w = explain_calls w @ callsFor w runID m i (take 0 fs) \<and>
        runs w = runs w"
    by (simp add: pairMsgs_Nil callsFor_Nil)
  then show ?case by blast
next
  case (Suc K)
  then obtain f fs' where fs: "fs = f # fs'" by (cases fs) auto
  have a0: "WriteErr e (writes w) = None" using Suc.prems(2) [rule_format, of 0] by simp
  have a1: "WriteErr e (Suc (writes w)) = None" using Suc.prems(2) [rule_format, of 1] by simp
  let ?ub = "userBehaviorFor w runID (int i) m"
  let ?w1 = "w\<lparr>outbox := outbox w @ [traceMsg f], writes := Suc (writes w)\<rparr>"
  obtain res w2 where cp: "callPythonExplain e f ?ub ?w1 = (res, w2)" by fastforce
  let ?w3 = "w2\<lparr>outbox := outbox w @ [traceMsg f, explainMsg (explanationOf res)],
                writes := Suc (Suc (writes w))\<rparr>"
  have step: "streamFrames e runID m i (f # fs') w = streamFrames e runID m (Suc i) fs' ?w3"
    by (rule streamFrames_step [OF a0 a1 cp])
  have fr: "runs w2 = runs w" "explain_calls w2 = explain_calls w @ [(f, ?ub)]"
           "explain_results w2 = explain_results w @ [res]"
    using callPythonExplain_frame [OF cp] by simp_all
  have p1: "K \<le> length fs'" using Suc.prems(1) fs by simp
  have p2: "\<forall>j < 2 * K. WriteErr e (writes ?w3 + j) = None"
  proof (intro allI impI)
    fix j assume "j < 2 * K"
    then show "WriteErr e (writes ?w3 + j) = None"
      using Suc.prems(2) [rule_format, of "Suc (Suc j)"] by simp
  qed
  from Suc.IH [OF p1 p2, of "Suc i"] obtain rs w1 where
    ih: "length rs = K"
        "streamFrames e runID m (Suc i) fs' ?w3 = streamFrames e runID m (Suc i + K) (drop K fs') w1"
        "explain_results w1 = explain_results ?w3 @ rs"
        "outbox w1 = outbox ?w3 @ pairMsgs (take K fs') (map explanationOf rs)"
        "writes w1 = writes ?w3 + 2 * K"
        "explain_calls w1 = explain_calls ?w3 @ callsFor ?w3 runID m (Suc i) (take K fs')"
        "runs w1 = runs ?w3"
    by blast
  have cf: "callsFor ?w3 runID m (Suc i) (take K fs') = callsFor w runID m (Suc i) (take K fs')"
    by (rule callsFor_cong) (simp add: fr)
  have "length (res # rs) = Suc K \<and>
        streamFrames e runID m i fs w = streamFrames e runID m (i + Suc K) (drop (Suc K) fs) w1 \<and>
        explain_results w1 = explain_results w @ (res # rs) \<and>
        outbox w1 = outbox w @ pairMsgs (take (Suc K) fs) (map explanationOf (res # rs)) \<and>
        writes w1 = writes w + 2 * Suc K \<and>
        explain_calls w1 = explain_calls w @ callsFor w runID m i (take (Suc K) fs) \<and>
        runs w1 = runs w"
    using ih step cf fr fs by (simp add: pairMsgs_Cons callsFor_Cons)
  then show ?case by blast
qed

lemma streamFrames_ok:
  assumes "\<forall>j < 2 * length fs. WriteErr e (writes w + j) = None"
  shows "\<exists>rs w'. streamFrames e runID m i fs w = (None, w') \<and> length rs = length fs \<and>
           explain_results w' = explain_results w @ rs \<and>
           outbox w' = outbox w @ pairMsgs fs (map explanationOf rs) \<and>
           writes w' = writes w + 2 * length fs \<and>
           explain_calls w' = explain_calls w @ callsFor w runID m i fs \<and>
           runs w' = runs w"
  using streamFrames_prefix [OF le_refl assms, of runID m i] by auto

lemma streamFrames_fail:
  assumes "k < 2 * length fs"
      and "\<forall>j < k. WriteErr e (writes w + j) = None"
      and "WriteErr e (writes w + k) = Some err"
  shows "\<exists>xs w'. streamFrames e runID m i fs w =
             (Some ((if even k then ''failed to send trace: ''
                     else ''failed to send explanation: '') @ err), w') \<and>
           length xs = length fs \<and>
           outbox w' = outbox w @ take k (pairMsgs fs xs) \<and>
           writes w' = writes w + k + 1 \<and>
           explain_calls w' = explain_calls w @ take ((k + 1) div 2) (callsFor w runID m i fs) \<and>
           runs w' = runs w"
  using assms
proof (induction fs arbitrary: i w k)
  case Nil
  then show ?case by simp
next
  case (Cons f fs)
  let ?ub = "userBehaviorFor w runID (int i) m"
  let ?w1 = "w\<lparr>outbox := outbox w @ [traceMsg f], writes := Suc (writes w)\<rparr>"
  obtain res w2 where cp: "callPythonExplain e f ?ub ?w1 = (res, w2)" by fastforce
  have fr: "runs w2 = runs w" "explain_calls w2 = explain_calls w @ [(f, ?ub)]"
           "outbox w2 = outbox w @ [traceMsg f]"
    using callPythonExplain_frame [OF cp] by simp_all
  let ?x = "explanationOf res"
  let ?tag = "\<lambda>n::nat. if even n then ''failed to send trace: '' else ''failed to send explanation: ''"
  consider (zero) "k = 0" | (one) "k = 1" | (more) "2 \<le> k" by linarith
  then show ?case
  proof cases
    case zero
    let ?w' = "w\<lparr>writes := Suc (writes w)\<rparr>"
    let ?xs = "replicate (length (f # fs)) fallbackExplanation"
    have "streamFrames e runID m i (f # fs) w = (Some (''failed to send trace: '' @ err), ?w')"
      using Cons.prems(3) zero by (simp add: streamFrames_trace_fails)
    then have "streamFrames e runID m i (f # fs) w = (Some (?tag k @ err), ?w') \<and>
          length ?xs = length (f # fs) \<and>
          outbox ?w' = outbox w @ take k (pairMsgs (f # fs) ?xs) \<and>
          writes ?w' = writes w + k + 1 \<and>
          explain_calls ?w' =
            explain_calls w @ take ((k + 1) div 2) (callsFor w runID m i (f # fs)) \<and>
          runs ?w' = runs w"
      using zero by simp
    then show ?thesis by blast
  next
    case one
    have a0: "WriteErr e (writes w) = None" using Cons.prems(2) one by simp
    have a1: "WriteErr e (Suc (writes w)) = Some err" using Cons.prems(3) one by simp
    let ?w' = "w2\<lparr>writes := Suc (Suc (writes w))\<rparr>"
    let ?xs = "?x # replicate (length fs) fallbackExplanation"
    have "streamFrames e runID m i (f # fs) w =
            (Some (''failed to send explanation: '' @ err), ?w')"
      by (rule streamFrames_explanation_fails [OF a0 a1 cp])
    then have "streamFrames e runID m i (f # fs) w = (Some (?tag k @ err), ?w') \<and>
          length ?xs = length (f # fs) \<and>
          outbox ?w' = outbox w @ take k (pairMsgs (f # fs) ?xs) \<and>
          writes ?w' = writes w + k + 1 \<and>
          explain_calls ?w' =
            explain_calls w @ take ((k + 1) div 2) (callsFor w runID m i (f # fs)) \<and>
          runs ?w' = runs w"
      using one fr by (simp add: pairMsgs_Cons callsFor_Cons)
    then show ?thesis by blast
  next
    case more
    then obtain k' where k': "k = Suc (Suc k')" by (metis add_2_eq_Suc le_Suc_ex)
    have a0: "WriteErr e (writes w) = None" using Cons.prems(2) [rule_format, of 0] k' by simp
    have a1: "WriteErr e (Suc (writes w)) = None"
      using Cons.prems(2) [rule_format, of 1] k' by simp
    let ?w3 = "w2\<lparr>outbox := outbox w @ [traceMsg f, explainMsg ?x],
                  writes := Suc (Suc (writes w))\<rparr>"
    have step: "streamFrames e runID m i (f # fs) w = streamFrames e runID m (Suc i) fs ?w3"
      by (rule streamFrames_step [OF a0 a1 cp])
    have p1: "k' < 2 * length fs" using Cons.prems(1) k' by simp
    have p2: "\<forall>j < k'. WriteErr e (writes ?w3 + j) = None"
    proof (intro allI impI)
      fix j assume "j < k'"
      then show "WriteErr e (writes ?w3 + j) = None"
        using Cons.prems(2) [rule_format, of "Suc (Suc j)"] k' by simp
    qed
    have p3: "WriteErr e (writes ?w3 + k') = Some err" using Cons.prems(3) k' by simp
    from Cons.IH [OF p1 p2 p3, of "Suc i"] obtain xs w' where
      ih: "streamFrames e runID m (Suc i) fs ?w3 = (Some (?tag k' @ err), w')"
          "length xs = length fs"
          "outbox w' = outbox ?w3 @ take k' (pairMsgs fs xs)"
          "writes w' = writes ?w3 + k' + 1"
          "explain_calls w' =
             explain_calls ?w3 @ take ((k' + 1) div 2) (callsFor ?w3 runID m (Suc i) fs)"
          "runs w' = runs ?w3"
      by blast
    have cf: "callsFor ?w3 runID m (Suc i) fs = callsFor w runID m (Suc i) fs"
      by (rule callsFor_cong) (simp add: fr)
    have "streamFrames e runID m i (f # fs) w = (Some (?tag k @ err), w') \<and>
          length (?x # xs) = length (f # fs) \<and>
          outbox w' = outbox w @ take k (pairMsgs (f # fs) (?x # xs)) \<and>
          writes w' = writes w + k + 1 \<and>
          explain_calls w' =
            explain_calls w @ take ((k + 1) div 2) (callsFor w runID m i (f # fs)) \<and>
          runs w' = runs w"
      using ih step cf fr k' by (simp add: pairMsgs_Cons callsFor_Cons)
    then show ?thesis by blast
  qed
qed

lemma streamFrames_calls:
  "\<exists>c. explain_calls (snd (streamFrames e runID m i fs w)) =
          explain_calls w @ take c (callsFor w runID m i fs) \<and>
        runs (snd (streamFrames e runID m i fs w)) = runs w"
proof (induction fs arbitrary: i w)
  case Nil
  show ?case by simp
next
  case (Cons f fs)
  let ?ub = "userBehaviorFor w runID (int i) m"
  let ?w1 = "w\<lparr>outbox := outbox w @ [traceMsg f], writes := Suc (writes w)\<rparr>"
  obtain res w2 where cp: "callPythonExplain e f ?ub ?w1 = (res, w2)" by fastforce
  have fr: "runs w2 = runs w" "explain_calls w2 = explain_calls w @ [(f, ?ub)]"
    using callPythonExplain_frame [OF cp] by simp_all
  let ?x = "explanationOf res"
  show ?case
  proof (cases "WriteErr e (writes w)")
    case (Some err)
    have "explain_calls (snd (streamFrames e runID m i (f # fs) w)) =
            explain_calls w @ take 0 (callsFor w runID m i (f # fs)) \<and>
          runs (snd (streamFrames e runID m i (f # fs) w)) = runs w"
      by (simp add: streamFrames_trace_fails [OF Some])
    then show ?thesis by blast
  next
    case None
    show ?thesis
    proof (cases "WriteErr e (Suc (writes w))")
      case (Some err)
      have "explain_calls (snd (streamFrames e runID m i (f # fs) w)) =
              explain_calls w @ take 1 (callsFor w runID m i (f # fs)) \<and>
            runs (snd (streamFrames e runID m i (f # fs) w)) = runs w"
        by (simp add: streamFrames_explanation_fails [OF None Some cp] fr callsFor_Cons)
      then show ?thesis by blast
    next
      case n1: None
      let ?w3 = "w2\<lparr>outbox := outbox w @ [traceMsg f, explainMsg ?x],
                    writes := Suc (Suc (writes w))\<rparr>"
      have step: "streamFrames e runID m i (f # fs) w = streamFrames e runID m (Suc i) fs ?w3"
        by (rule streamFrames_step [OF None n1 cp])
      from Cons.IH [of "Suc i" ?w3] obtain c where
        ih: "explain_calls (snd (streamFrames e runID m (Suc i) fs ?w3)) =
               explain_calls ?w3 @ take c (callsFor ?w3 runID m (Suc i) fs)"
            "runs (snd (streamFrames e runID m (Suc i) fs ?w3)) = runs ?w3"
        by blast
      have cf: "callsFor ?w3 runID m (Suc i) fs = callsFor w runID m (Suc i) fs"
        by (rule callsFor_cong) (simp add: fr)
      have "explain_calls (snd (streamFrames e runID m i (f # fs) w)) =
              explain_calls w @ take (Suc c) (callsFor w runID m i (f # fs)) \<and>
            runs (snd (streamFrames e runID m i (f # fs) w)) = runs w"
        using ih step cf fr by (simp add: callsFor_Cons)
      then show ?thesis by blast
    qed
  qed
qed

lemma streamFrames_grows:
  "\<exists>ms rs. outbox (snd (streamFrames e runID m i fs w)) = outbox w @ ms \<and>
           explain_results (snd (streamFrames e runID m i fs w)) = explain_results w @ rs"
proof (induction fs arbitrary: i w)
  case Nil
  show ?case by simp
next
  case (Cons f fs)
  let ?ub = "userBehaviorFor w runID (int i) m"
  let ?w1 = "w\<lparr>outbox := outbox w @ [traceMsg f], writes := Suc (writes w)\<rparr>"
  obtain res w2 where cp: "callPythonExplain e f ?ub ?w1 = (res, w2)" by fastforce
  have fr: "outbox w2 = outbox w @ [traceMsg f]" "explain_results w2 = explain_results w @ [res]"
    using callPythonExplain_frame [OF cp] by simp_all
  show ?case
  proof (cases "WriteErr e (writes w)")
    case (Some err)
    show ?thesis by (simp add: streamFrames_trace_fails [OF Some])
  next
    case None
    show ?thesis
    proof (cases "WriteErr e (Suc (writes w))")
      case (Some err)
      show ?thesis by (simp add: streamFrames_explanation_fails [OF None Some cp] fr)
    next
      case n1: None
      let ?w3 = "w2\<lparr>outbox := outbox w @ [traceMsg f, explainMsg (explanationOf res)],
                    writes := Suc (Suc (writes w))\<rparr>"
      have step: "streamFrames e runID m i (f # fs) w = streamFrames e runID m (Suc i) fs ?w3"
        by (rule streamFrames_step [OF None n1 cp])
      from Cons.IH [of "Suc i" ?w3] obtain ms rs where
        "outbox (snd (streamFrames e runID m (Suc i) fs ?w3)) = outbox ?w3 @ ms"
        "explain_results (snd (streamFrames e runID m (Suc i) fs ?w3)) = explain_results ?w3 @ rs"
        by blast
      then show ?thesis using step fr by simp
    qed
  qed
qed

lemma streamFrames_first_trace:
  assumes "WriteErr e (writes w) = None"
  shows "\<exists>ms. outbox (snd (streamFrames e runID m i (f # fs) w)) = outbox w @ traceMsg f # ms"
proof -
  let ?ub = "userBehaviorFor w runID (int i) m"
  let ?w1 = "w\<lparr>outbox := outbox w @ [traceMsg f], writes := Suc (writes w)\<rparr>"
  obtain res w2 where cp: "callPythonExplain e f ?ub ?w1 = (res, w2)" by fastforce
  have fr: "outbox w2 = outbox w @ [traceMsg f]"
    using callPythonExplain_frame [OF cp] by simp
  show ?thesis
  proof (cases "WriteErr e (Suc (writes w))")
    case (Some err)
    show ?thesis by (simp add: streamFrames_explanation_fails [OF assms Some cp] fr)
  next
    case None
    let ?w3 = "w2\<lparr>outbox := outbox w @ [traceMsg f, explainMsg (explanationOf res)],
                  writes := Suc (Suc (writes w))\<rparr>"
    have step: "streamFrames e runID m i (f # fs) w = streamFrames e runID m (Suc i) fs ?w3"
      by (rule streamFrames_step [OF assms None cp])
    from streamFrames_grows [of e runID m "Suc i" fs ?w3] obtain ms where
      "outbox (snd (streamFrames e runID m (Suc i) fs ?w3)) = outbox ?w3 @ ms" by blast
    then show ?thesis using step by simp
  qed
qed

subsection \<open>The message sequence\<close>

lemma length_pairMsgs: "length xs = length fs \<Longrightarrow> length (pairMsgs fs xs) = 2 * length fs"
proof (induction fs arbitrary: xs)
  case Nil
  show ?case by (simp add: pairMsgs_Nil)
next
  case (Cons f fs)
  then obtain x xs' where "xs = x # xs'" by (cases xs) auto
  with Cons show ?case by (simp add: pairMsgs_Cons)
qed

lemma nth_pairMsgs:
  "length xs = length fs \<Longrightarrow> k < length fs \<Longrightarrow>
   pairMsgs fs xs ! (2 * k) = traceMsg (fs ! k) \<and>
   pairMsgs fs xs ! Suc (2 * k) = explainMsg (xs ! k)"
proof (induction fs arbitrary: xs k)
  case Nil
  then show ?case by simp
next
  case (Cons f fs)
  then obtain x xs' where xs: "xs = x # xs'" by (cases xs) auto
  show ?case
  proof (cases k)
    case 0
    then show ?thesis by (simp add: xs pairMsgs_Cons)
  next
    case (Suc k')
    with Cons xs show ?thesis by (simp add: pairMsgs_Cons)
  qed
qed

lemma traceMsg_type: "traceMsg f ''type'' = Some (GStr ''TRACE'')"
  by (simp add: traceMsg_def)

lemma explainMsg_type: "explainMsg x ''type'' = Some (GStr ''EXPLANATION'')"
  by (simp add: explainMsg_def)

lemma endMsg_type: "endMsg ''type'' = Some (GStr ''END'')"
  by (simp add: endMsg_def)

lemma countType_pairMsgs:
  "length xs = length fs \<Longrightarrow>
   countType ''TRACE'' (pairMsgs fs xs) = length fs \<and>
   countType ''EXPLANATION'' (pairMsgs fs xs) = length fs \<and>
   countType ''END'' (pairMsgs fs xs) = 0"
proof (induction fs arbitrary: xs)
  case Nil
  show ?case by (simp add: pairMsgs_Nil countType_def)
next
  case (Cons f fs)
  then obtain x xs' where xs: "xs = x # xs'" by (cases xs) auto
  with Cons.prems have "length xs' = length fs" by simp
  from Cons.IH [OF this] show ?case
    by (simp add: xs pairMsgs_Cons countType_def traceMsg_type explainMsg_type)
qed

section \<open>The claims\<close>

subsection \<open>The relay\<close>

lemma countType_append: "countType t (xs @ ys) = countType t xs + countType t ys"
  by (simp add: countType_def)

text \<open>
  Claim C1. For a stored run with \<open>N\<close> frames and a connection on which none of the
  \<open>2N + 1\<close> writes fails, the relay returns without error and has written exactly
  \<open>2N + 1\<close> new messages after those already on the connection. For every \<open>k < N\<close>,
  message \<open>2k\<close> is the TRACE message whose data is frame \<open>k\<close> of the trace, and message
  \<open>2k + 1\<close> is the EXPLANATION message whose data is what the \<open>k\<close>-th explainer call
  returned (the fallback if it returned an error); message \<open>2N\<close> is the END message with
  the data \<open>{"message": "Visualization complete"}\<close>. So there are \<open>N\<close> TRACE messages,
  \<open>N\<close> EXPLANATION messages and one END message, and no frame is skipped or out of
  order. It holds for every \<open>N\<close>, also \<open>N = 0\<close>.
\<close>

theorem streamRun_full_sequence:
  assumes "runs w runID = Some run"
      and "\<forall>j \<le> 2 * length (Trace run). WriteErr e (writes w + j) = None"
  shows "\<exists>rs w'. streamRun e runID m w = (None, w') \<and>
           length rs = length (Trace run) \<and>
           explain_results w' = explain_results w @ rs \<and>
           length (outbox w') = length (outbox w) + 2 * length (Trace run) + 1 \<and>
           take (length (outbox w)) (outbox w') = outbox w \<and>
           (\<forall>k < length (Trace run).
              outbox w' ! (length (outbox w) + 2 * k) =
                [''type'' \<mapsto> GStr ''TRACE'', ''data'' \<mapsto> GMap (Trace run ! k)] \<and>
              outbox w' ! (length (outbox w) + 2 * k + 1) =
                [''type'' \<mapsto> GStr ''EXPLANATION'',
                 ''data'' \<mapsto> GMap (case rs ! k of Inl err \<Rightarrow> fallbackExplanation
                                                 | Inr explanation \<Rightarrow> explanation)]) \<and>
           outbox w' ! (length (outbox w) + 2 * length (Trace run)) =
             [''type'' \<mapsto> GStr ''END'',
              ''data'' \<mapsto> GMap [''message'' \<mapsto> GStr ''Visualization complete'']] \<and>
           countType ''TRACE'' (drop (length (outbox w)) (outbox w')) = length (Trace run) \<and>
           countType ''EXPLANATION'' (drop (length (outbox w)) (outbox w')) = length (Trace run) \<and>
           countType ''END'' (drop (length (outbox w)) (outbox w')) = 1"
proof -
  let ?fs = "Trace run"
  have pre: "\<forall>j < 2 * length ?fs. WriteErr e (writes w + j) = None"
    using assms(2) by simp
  from streamFrames_ok [OF pre, of runID m 0] obtain rs w1 where
    loop: "streamFrames e runID m 0 ?fs w = (None, w1)" "length rs = length ?fs"
          "explain_results w1 = explain_results w @ rs"
          "outbox w1 = outbox w @ pairMsgs ?fs (map explanationOf rs)"
          "writes w1 = writes w + 2 * length ?fs"
    by blast
  let ?pm = "pairMsgs ?fs (map explanationOf rs)"
  have last: "WriteErr e (writes w1) = None"
    using assms(2) [rule_format, of "2 * length ?fs"] loop(5) by simp
  let ?w' = "w1\<lparr>outbox := outbox w1 @ [endMsg], writes := Suc (writes w1)\<rparr>"
  have run: "streamRun e runID m w = (None, ?w')"
    using assms(1) loop(1) by (simp add: streamRun_def WriteJSON_ok [OF last])
  have obx: "outbox ?w' = outbox w @ ?pm @ [endMsg]" using loop(4) by simp
  have lpm: "length ?pm = 2 * length ?fs"
    using length_pairMsgs [of "map explanationOf rs" ?fs] loop(2) by simp
  have idx: "\<forall>k < length ?fs.
        outbox ?w' ! (length (outbox w) + 2 * k) =
          [''type'' \<mapsto> GStr ''TRACE'', ''data'' \<mapsto> GMap (?fs ! k)] \<and>
        outbox ?w' ! (length (outbox w) + 2 * k + 1) =
          [''type'' \<mapsto> GStr ''EXPLANATION'',
           ''data'' \<mapsto> GMap (case rs ! k of Inl err \<Rightarrow> fallbackExplanation
                                           | Inr explanation \<Rightarrow> explanation)]"
  proof (intro allI impI)
    fix k assume k: "k < length ?fs"
    have p: "?pm ! (2 * k) = traceMsg (?fs ! k)"
            "?pm ! Suc (2 * k) = explainMsg (explanationOf (rs ! k))"
      using nth_pairMsgs [of "map explanationOf rs" ?fs k] loop(2) k by simp_all
    have b: "2 * k < length ?pm" "Suc (2 * k) < length ?pm" using lpm k by simp_all
    have "outbox ?w' ! (length (outbox w) + 2 * k) = ?pm ! (2 * k)"
      unfolding obx using b(1) by (simp add: nth_append)
    moreover have "outbox ?w' ! (length (outbox w) + 2 * k + 1) = ?pm ! Suc (2 * k)"
      unfolding obx using b(2) by (simp add: nth_append)
    ultimately show
      "outbox ?w' ! (length (outbox w) + 2 * k) =
          [''type'' \<mapsto> GStr ''TRACE'', ''data'' \<mapsto> GMap (?fs ! k)] \<and>
       outbox ?w' ! (length (outbox w) + 2 * k + 1) =
          [''type'' \<mapsto> GStr ''EXPLANATION'',
           ''data'' \<mapsto> GMap (case rs ! k of Inl err \<Rightarrow> fallbackExplanation
                                           | Inr explanation \<Rightarrow> explanation)]"
      using p by (simp add: traceMsg_def explainMsg_def explanationOf_def)
  qed
  have fin: "outbox ?w' ! (length (outbox w) + 2 * length ?fs) =
               [''type'' \<mapsto> GStr ''END'',
                ''data'' \<mapsto> GMap [''message'' \<mapsto> GStr ''Visualization complete'']]"
    unfolding obx using lpm by (simp add: nth_append endMsg_def)
  have cnt: "countType ''TRACE'' ?pm = length ?fs"
            "countType ''EXPLANATION'' ?pm = length ?fs"
            "countType ''END'' ?pm = 0"
    using countType_pairMsgs [of "map explanationOf rs" ?fs] loop(2) by simp_all
  have e: "countType ''TRACE'' [endMsg] = 0" "countType ''EXPLANATION'' [endMsg] = 0"
          "countType ''END'' [endMsg] = 1"
    by (simp_all add: countType_def endMsg_def)
  have dr: "drop (length (outbox w)) (outbox ?w') = ?pm @ [endMsg]" unfolding obx by simp
  have c: "countType ''TRACE'' (drop (length (outbox w)) (outbox ?w')) = length ?fs"
          "countType ''EXPLANATION'' (drop (length (outbox w)) (outbox ?w')) = length ?fs"
          "countType ''END'' (drop (length (outbox w)) (outbox ?w')) = 1"
    unfolding dr using cnt e by (simp_all add: countType_append)
  have len: "length (outbox ?w') = length (outbox w) + 2 * length ?fs + 1"
    unfolding obx using lpm by simp
  have tk: "take (length (outbox w)) (outbox ?w') = outbox w" unfolding obx by simp
  have ex: "explain_results ?w' = explain_results w @ rs" using loop(3) by simp
  note lr = loop(2)
  show ?thesis
    by (intro exI [of _ rs] exI [of _ ?w'] conjI)
       (rule run lr ex len tk idx fin c)+
qed

theorem streamRun_full_sequence_witness:
  "fst (streamRun demoEnv ''r1'' (Fin 2) demoWorld) = None \<and>
   length (outbox (snd (streamRun demoEnv ''r1'' (Fin 2) demoWorld))) = 5 \<and>
   outbox (snd (streamRun demoEnv ''r1'' (Fin 2) demoWorld)) ! 0 =
     [''type'' \<mapsto> GStr ''TRACE'', ''data'' \<mapsto> GMap frameA] \<and>
   outbox (snd (streamRun demoEnv ''r1'' (Fin 2) demoWorld)) ! 2 =
     [''type'' \<mapsto> GStr ''TRACE'', ''data'' \<mapsto> GMap frameB] \<and>
   outbox (snd (streamRun demoEnv ''r1'' (Fin 2) demoWorld)) ! 4 =
     [''type'' \<mapsto> GStr ''END'',
      ''data'' \<mapsto> GMap [''message'' \<mapsto> GStr ''Visualization complete'']] \<and>
   countType ''TRACE'' (outbox (snd (streamRun demoEnv ''r1'' (Fin 2) demoWorld))) = 2 \<and>
   countType ''EXPLANATION'' (outbox (snd (streamRun demoEnv ''r1'' (Fin 2) demoWorld))) = 2 \<and>
   countType ''END'' (outbox (snd (streamRun demoEnv ''r1'' (Fin 2) demoWorld))) = 1"
proof -
  have h1: "runs demoWorld ''r1'' = Some demoRun" by (simp add: demoWorld_def)
  have h2: "\<forall>j \<le> 2 * length (Trace demoRun). WriteErr demoEnv (writes demoWorld + j) = None"
    by (simp add: demoEnv_def)
  have o: "length (outbox demoWorld) = 0" by (simp add: demoWorld_def)
  have n: "length (Trace demoRun) = 2" "Trace demoRun ! 0 = frameA" "Trace demoRun ! 1 = frameB"
    by (simp_all add: demoRun_def)
  from streamRun_full_sequence [OF h1 h2, of "Fin 2"] obtain rs w' where
    r: "streamRun demoEnv ''r1'' (Fin 2) demoWorld = (None, w')"
       "explain_results w' = explain_results demoWorld @ rs"
       "length (outbox w') = length (outbox demoWorld) + 2 * length (Trace demoRun) + 1"
       "\<forall>k < length (Trace demoRun).
          outbox w' ! (length (outbox demoWorld) + 2 * k) =
            [''type'' \<mapsto> GStr ''TRACE'', ''data'' \<mapsto> GMap (Trace demoRun ! k)] \<and>
          outbox w' ! (length (outbox demoWorld) + 2 * k + 1) =
            [''type'' \<mapsto> GStr ''EXPLANATION'',
             ''data'' \<mapsto> GMap (case rs ! k of Inl err \<Rightarrow> fallbackExplanation
                                             | Inr explanation \<Rightarrow> explanation)]"
       "outbox w' ! (length (outbox demoWorld) + 2 * length (Trace demoRun)) =
          [''type'' \<mapsto> GStr ''END'',
           ''data'' \<mapsto> GMap [''message'' \<mapsto> GStr ''Visualization complete'']]"
       "countType ''TRACE'' (drop (length (outbox demoWorld)) (outbox w')) = length (Trace demoRun)"
       "countType ''EXPLANATION'' (drop (length (outbox demoWorld)) (outbox w')) =
          length (Trace demoRun)"
       "countType ''END'' (drop (length (outbox demoWorld)) (outbox w')) = 1"
    by blast
  have t0: "outbox w' ! 0 = [''type'' \<mapsto> GStr ''TRACE'', ''data'' \<mapsto> GMap frameA]"
    using r(4) [rule_format, of 0] o n by simp
  have t1: "outbox w' ! 2 = [''type'' \<mapsto> GStr ''TRACE'', ''data'' \<mapsto> GMap frameB]"
    using r(4) [rule_format, of 1] o n by (simp add: numeral_2_eq_2)
  have t2: "outbox w' ! 4 =
              [''type'' \<mapsto> GStr ''END'',
               ''data'' \<mapsto> GMap [''message'' \<mapsto> GStr ''Visualization complete'']]"
    using r(5) o n by simp
  show ?thesis using r(1,3,6,7,8) t0 t1 t2 o n by simp
qed

text \<open>
  Claim C2. Let the explainer call for frame \<open>k\<close> return an error, and let the writes up
  to the one after frame \<open>k\<close>'s pair succeed. Then the call was made for frame \<open>k\<close> with
  its summary; message \<open>2k\<close> is the TRACE message with frame \<open>k\<close>; message \<open>2k + 1\<close> is
  the EXPLANATION message whose data has mode \<open>conceptual\<close>, confidence estimate
  \<open>medium\<close>, an empty follow-up question and the two fixed texts; and message \<open>2k + 2\<close>
  is the TRACE message with frame \<open>k + 1\<close>, or the END message when \<open>k\<close> was the last
  frame: the relay went on as it does after a successful call.
\<close>

theorem explanation_failure_fallback:
  assumes "runs w runID = Some run"
      and "k < length (Trace run)"
      and "\<forall>j \<le> 2 * k + 2. WriteErr e (writes w + j) = None"
      and "explain_results (snd (streamRun e runID m w)) ! (length (explain_results w) + k) = Inl err"
  shows "explain_calls (snd (streamRun e runID m w)) ! (length (explain_calls w) + k) =
           (Trace run ! k,
            (getBehaviorSignal w runID (int k))(''speedMultiplier'' \<mapsto> GFloat m)) \<and>
         outbox (snd (streamRun e runID m w)) ! (length (outbox w) + 2 * k) =
           [''type'' \<mapsto> GStr ''TRACE'', ''data'' \<mapsto> GMap (Trace run ! k)] \<and>
         outbox (snd (streamRun e runID m w)) ! (length (outbox w) + 2 * k + 1) =
           [''type'' \<mapsto> GStr ''EXPLANATION'',
            ''data'' \<mapsto> GMap
               [''mode'' \<mapsto> GStr ''conceptual'',
                ''explanation'' \<mapsto> GStr ''Processing this step...'',
                ''short_hint'' \<mapsto> GStr ''Watch the visualization'',
                ''confidence_estimate'' \<mapsto> GStr ''medium'',
                ''followup_question'' \<mapsto> GStr '''']] \<and>
         outbox (snd (streamRun e runID m w)) ! (length (outbox w) + 2 * k + 2) =
           (if Suc k < length (Trace run)
            then [''type'' \<mapsto> GStr ''TRACE'', ''data'' \<mapsto> GMap (Trace run ! Suc k)]
            else [''type'' \<mapsto> GStr ''END'',
                  ''data'' \<mapsto> GMap [''message'' \<mapsto> GStr ''Visualization complete'']])"
proof -
  let ?fs = "Trace run"
  let ?K = "Suc k"
  have K: "?K \<le> length ?fs" using assms(2) by simp
  have pre: "\<forall>j < 2 * ?K. WriteErr e (writes w + j) = None" using assms(3) by simp
  from streamFrames_prefix [OF K pre, of runID m 0] obtain rs w1 where
    p: "length rs = ?K"
       "streamFrames e runID m 0 ?fs w = streamFrames e runID m (0 + ?K) (drop ?K ?fs) w1"
       "explain_results w1 = explain_results w @ rs"
       "outbox w1 = outbox w @ pairMsgs (take ?K ?fs) (map explanationOf rs)"
       "writes w1 = writes w + 2 * ?K"
       "explain_calls w1 = explain_calls w @ callsFor w runID m 0 (take ?K ?fs)"
    by blast
  let ?rest = "streamFrames e runID m (0 + ?K) (drop ?K ?fs) w1"
  let ?final = "snd (streamRun e runID m w)"
  have next_ok: "WriteErr e (writes w1) = None"
    using assms(3) [rule_format, of "2 * k + 2"] p(5) by simp
  from streamFrames_grows [of e runID m "0 + ?K" "drop ?K ?fs" w1] obtain ms rs' where
    g: "outbox (snd ?rest) = outbox w1 @ ms" "explain_results (snd ?rest) = explain_results w1 @ rs'"
    by blast
  from streamFrames_calls [of e runID m "0 + ?K" "drop ?K ?fs" w1] obtain c where
    gc: "explain_calls (snd ?rest) =
           explain_calls w1 @ take c (callsFor w1 runID m (0 + ?K) (drop ?K ?fs))"
    by blast
  have final: "\<exists>ms2. outbox ?final = outbox (snd ?rest) @ ms2" 
    "explain_results ?final = explain_results (snd ?rest)"
    "explain_calls ?final = explain_calls (snd ?rest)"
    using assms(1) p(2)
    by (cases ?rest; cases "fst ?rest";
        simp add: streamRun_def WriteJSON_def split: option.splits)+
  then obtain ms2 where ms2: "outbox ?final = outbox (snd ?rest) @ ms2" by blast
  let ?pm = "pairMsgs (take ?K ?fs) (map explanationOf rs)"
  have lpm: "length ?pm = 2 * ?K"
    using length_pairMsgs [of "map explanationOf rs" "take ?K ?fs"] p(1) K by simp
  have obx: "outbox ?final = outbox w @ ?pm @ ms @ ms2"
    using ms2 g(1) p(4) by simp
  have res: "explain_results ?final = explain_results w @ rs @ rs'"
    using final(2) g(2) p(3) by simp
  have rk: "rs ! k = Inl err"
    using assms(4) res p(1) by (simp add: nth_append)
  have pmk: "?pm ! (2 * k) = traceMsg (take ?K ?fs ! k) \<and>
             ?pm ! Suc (2 * k) = explainMsg (map explanationOf rs ! k)"
    using nth_pairMsgs [of "map explanationOf rs" "take ?K ?fs" k] p(1) K by simp
  have xk: "map explanationOf rs ! k = fallbackExplanation"
    using rk p(1) by (simp add: explanationOf_def)
  have c1: "outbox ?final ! (length (outbox w) + 2 * k) = traceMsg (?fs ! k)"
    using obx lpm pmk by (simp add: nth_append)
  have c2: "outbox ?final ! (length (outbox w) + 2 * k + 1) = explainMsg fallbackExplanation"
    using obx lpm pmk xk by (simp add: nth_append)
  have calls: "explain_calls ?final ! (length (explain_calls w) + k) =
                 (?fs ! k, userBehaviorFor w runID (int k) m)"
  proof -
    have "explain_calls ?final =
            explain_calls w @ callsFor w runID m 0 (take ?K ?fs) @
              take c (callsFor w1 runID m (0 + ?K) (drop ?K ?fs))"
      using final(3) gc p(6) by simp
    moreover have "k < length (callsFor w runID m 0 (take ?K ?fs))"
      using K by (simp add: length_callsFor)
    moreover have "callsFor w runID m 0 (take ?K ?fs) ! k =
                     (take ?K ?fs ! k, userBehaviorFor w runID (int (0 + k)) m)"
      using K by (intro nth_callsFor) simp
    ultimately show ?thesis by (simp add: nth_append)
  qed
  have c3: "outbox ?final ! (length (outbox w) + 2 * k + 2) =
              (if Suc k < length ?fs then traceMsg (?fs ! Suc k) else endMsg)"
  proof (cases "Suc k < length ?fs")
    case True
    then have d: "drop ?K ?fs = ?fs ! Suc k # drop (Suc ?K) ?fs"
      by (simp add: Cons_nth_drop_Suc)
    from streamFrames_first_trace [OF next_ok, of runID m "0 + ?K" "?fs ! Suc k" "drop (Suc ?K) ?fs"]
    obtain ms' where "outbox (snd ?rest) = outbox w1 @ traceMsg (?fs ! Suc k) # ms'"
      using d by auto
    then have "outbox ?final = outbox w @ ?pm @ traceMsg (?fs ! Suc k) # ms' @ ms2"
      using ms2 p(4) by simp
    then show ?thesis using True lpm by (simp add: nth_append)
  next
    case False
    then have d: "drop ?K ?fs = []" using K by simp
    have "streamRun e runID m w =
            (None, w1\<lparr>outbox := outbox w1 @ [endMsg], writes := Suc (writes w1)\<rparr>)"
      using assms(1) p(2) d by (simp add: streamRun_def WriteJSON_ok [OF next_ok])
    then have "outbox ?final = outbox w @ ?pm @ [endMsg]" using p(4) by simp
    then show ?thesis using False lpm by (simp add: nth_append)
  qed
  have d0: "explain_calls ?final ! (length (explain_calls w) + k) =
              (?fs ! k, (getBehaviorSignal w runID (int k))(''speedMultiplier'' \<mapsto> GFloat m))"
    using calls by (simp add: userBehaviorFor_def)
  have d1: "outbox ?final ! (length (outbox w) + 2 * k) =
              [''type'' \<mapsto> GStr ''TRACE'', ''data'' \<mapsto> GMap (?fs ! k)]"
    using c1 by (simp add: traceMsg_def)
  have d2: "outbox ?final ! (length (outbox w) + 2 * k + 1) =
              [''type'' \<mapsto> GStr ''EXPLANATION'',
               ''data'' \<mapsto> GMap
                  [''mode'' \<mapsto> GStr ''conceptual'',
                   ''explanation'' \<mapsto> GStr ''Processing this step...'',
                   ''short_hint'' \<mapsto> GStr ''Watch the visualization'',
                   ''confidence_estimate'' \<mapsto> GStr ''medium'',
                   ''followup_question'' \<mapsto> GStr '''']]"
    using c2 by (simp add: explainMsg_def fallbackExplanation_def)
  have d3: "outbox ?final ! (length (outbox w) + 2 * k + 2) =
              (if Suc k < length ?fs
               then [''type'' \<mapsto> GStr ''TRACE'', ''data'' \<mapsto> GMap (?fs ! Suc k)]
               else [''type'' \<mapsto> GStr ''END'',
                     ''data'' \<mapsto> GMap [''message'' \<mapsto> GStr ''Visualization complete'']])"
    using c3 by (simp add: traceMsg_def endMsg_def)
  show ?thesis by (intro conjI) (rule d0 d1 d2 d3)+
qed

lemma flakyEnv_results:
  "explain_results (snd (streamRun flakyEnv ''r1'' (Fin 1) demoWorld)) =
     [Inl ''failed to call Python backend: timeout'', Inr demoExplanation]"
  by (simp add: streamRun_def flakyEnv_def demoWorld_def demoRun_def streamFrames.simps
        WriteJSON_def demoEnv_def callPythonExplain_def explainRequest_def)

theorem explanation_failure_fallback_witness:
  "outbox (snd (streamRun flakyEnv ''r1'' (Fin 1) demoWorld)) ! 0 =
     [''type'' \<mapsto> GStr ''TRACE'', ''data'' \<mapsto> GMap frameA] \<and>
   outbox (snd (streamRun flakyEnv ''r1'' (Fin 1) demoWorld)) ! 1 =
     [''type'' \<mapsto> GStr ''EXPLANATION'',
      ''data'' \<mapsto> GMap
         [''mode'' \<mapsto> GStr ''conceptual'',
          ''explanation'' \<mapsto> GStr ''Processing this step...'',
          ''short_hint'' \<mapsto> GStr ''Watch the visualization'',
          ''confidence_estimate'' \<mapsto> GStr ''medium'',
          ''followup_question'' \<mapsto> GStr '''']] \<and>
   outbox (snd (streamRun flakyEnv ''r1'' (Fin 1) demoWorld)) ! 2 =
     [''type'' \<mapsto> GStr ''TRACE'', ''data'' \<mapsto> GMap frameB]"
proof -
  have h1: "runs demoWorld ''r1'' = Some demoRun" by (simp add: demoWorld_def)
  have h2: "0 < length (Trace demoRun)" by (simp add: demoRun_def)
  have h3: "\<forall>j \<le> 2 * 0 + 2. WriteErr flakyEnv (writes demoWorld + j) = None"
    by (simp add: flakyEnv_def demoEnv_def)
  have n: "length (explain_results demoWorld) = 0" by (simp add: demoWorld_def)
  have h4: "explain_results (snd (streamRun flakyEnv ''r1'' (Fin 1) demoWorld)) !
              (length (explain_results demoWorld) + 0) =
            Inl ''failed to call Python backend: timeout''"
    by (simp add: flakyEnv_results n)
  have z: "length (outbox demoWorld) = 0" "Trace demoRun ! 0 = frameA"
          "Trace demoRun ! Suc 0 = frameB" "length (Trace demoRun) = 2"
    by (simp_all add: demoWorld_def demoRun_def)
  from explanation_failure_fallback [OF h1 h2 h3 h4] show ?thesis
    using z by (simp add: numeral_2_eq_2)
qed

lemma streamRun_calls:
  assumes "runs w runID = Some run"
  shows "\<exists>c. explain_calls (snd (streamRun e runID m w)) =
           explain_calls w @ take c (callsFor w runID m 0 (Trace run))"
proof -
  obtain r w1 where loop: "streamFrames e runID m 0 (Trace run) w = (r, w1)" by fastforce
  from streamFrames_calls [of e runID m 0 "Trace run" w] loop obtain c where
    c: "explain_calls w1 = explain_calls w @ take c (callsFor w runID m 0 (Trace run))"
    by auto
  have "explain_calls (snd (streamRun e runID m w)) = explain_calls w1"
    using assms loop by (cases r) (simp_all add: streamRun_def WriteJSON_def split: option.splits)
  with c show ?thesis by auto
qed

text \<open>
  Claim C5. Let a signal be recorded for step \<open>i\<close> of the run, and let the relay, run with
  the multiplier \<open>m\<close>, reach the explainer call of step \<open>i\<close>. That call gets frame \<open>i\<close>
  and a summary whose \<open>pauseDuration\<close> and \<open>replayCount\<close> are the recorded ones and whose
  \<open>speedMultiplier\<close> is \<open>m\<close>, whatever multiplier the signal holds.
\<close>

theorem recorded_signal_in_summary:
  assumes "runs w runID = Some run"
      and "BehaviorSignals run (int i) = Some signal"
      and "i < length (explain_calls (snd (streamRun e runID m w))) - length (explain_calls w)"
  shows "\<exists>ub. explain_calls (snd (streamRun e runID m w)) ! (length (explain_calls w) + i) =
                (Trace run ! i, ub) \<and>
              ub ''pauseDuration'' = Some (GFloat (PauseDuration signal)) \<and>
              ub ''replayCount'' = Some (GInt (ReplayCount signal)) \<and>
              ub ''speedMultiplier'' = Some (GFloat m)"
proof -
  let ?cs = "callsFor w runID m 0 (Trace run)"
  from streamRun_calls [OF assms(1), of e m] obtain c where
    c: "explain_calls (snd (streamRun e runID m w)) = explain_calls w @ take c ?cs" by blast
  have i: "i < c" "i < length (Trace run)"
    using assms(3) c by (simp_all add: length_callsFor)
  have "explain_calls (snd (streamRun e runID m w)) ! (length (explain_calls w) + i) = ?cs ! i"
    using c i by (simp add: nth_append)
  also have "\<dots> = (Trace run ! i, userBehaviorFor w runID (int i) m)"
    using nth_callsFor [OF i(2), of w runID m 0] by simp
  finally have "explain_calls (snd (streamRun e runID m w)) ! (length (explain_calls w) + i) =
                  (Trace run ! i, userBehaviorFor w runID (int i) m)" .
  moreover have "userBehaviorFor w runID (int i) m ''pauseDuration'' =
                   Some (GFloat (PauseDuration signal)) \<and>
                 userBehaviorFor w runID (int i) m ''replayCount'' =
                   Some (GInt (ReplayCount signal)) \<and>
                 userBehaviorFor w runID (int i) m ''speedMultiplier'' = Some (GFloat m)"
    using assms(1,2) by (simp add: userBehaviorFor_def getBehaviorSignal_def)
  ultimately show ?thesis by blast
qed

lemma signalWorld_calls:
  "explain_calls (snd (streamRun demoEnv ''r1'' (Fin 2) signalWorld)) =
     [(frameA, userBehaviorFor signalWorld ''r1'' 0 (Fin 2)),
      (frameB, userBehaviorFor signalWorld ''r1'' 1 (Fin 2))]"
  by (simp add: streamRun_def signalWorld_def demoWorld_def demoRun_def streamFrames.simps
        WriteJSON_def demoEnv_def callPythonExplain_def explainRequest_def userBehaviorFor_def
        getBehaviorSignal_def)

theorem recorded_signal_in_summary_witness:
  "fst (explain_calls (snd (streamRun demoEnv ''r1'' (Fin 2) signalWorld)) ! 1) = frameB \<and>
   snd (explain_calls (snd (streamRun demoEnv ''r1'' (Fin 2) signalWorld)) ! 1) ''pauseDuration'' =
     Some (GFloat (Fin 3)) \<and>
   snd (explain_calls (snd (streamRun demoEnv ''r1'' (Fin 2) signalWorld)) ! 1) ''replayCount'' =
     Some (GInt 2) \<and>
   snd (explain_calls (snd (streamRun demoEnv ''r1'' (Fin 2) signalWorld)) ! 1) ''speedMultiplier'' =
     Some (GFloat (Fin 2))"
proof -
  let ?run = "demoRun\<lparr>BehaviorSignals :=
        [1 \<mapsto> \<lparr>PauseDuration = Fin 3, ReplayCount = 2, SpeedMultiplier = Fin 1,
                 HoverIndex = Some 4, ScrollDepth = None\<rparr>]\<rparr>"
  let ?sig = "\<lparr>PauseDuration = Fin 3, ReplayCount = 2, SpeedMultiplier = Fin 1,
                 HoverIndex = Some 4, ScrollDepth = None\<rparr>"
  have h1: "runs signalWorld ''r1'' = Some ?run" by (simp add: signalWorld_def)
  have h2: "BehaviorSignals ?run (int 1) = Some ?sig" by simp
  have h3: "1 < length (explain_calls (snd (streamRun demoEnv ''r1'' (Fin 2) signalWorld))) -
                length (explain_calls signalWorld)"
    by (simp add: signalWorld_calls) (simp add: signalWorld_def demoWorld_def)
  have n: "length (explain_calls signalWorld) = 0" by (simp add: signalWorld_def demoWorld_def)
  have t: "Trace ?run ! 1 = frameB" by (simp add: demoRun_def)
  from recorded_signal_in_summary [OF h1 h2 h3] show ?thesis
    using n t by auto
qed

text \<open>
  Claim C6. Let the write number \<open>k\<close> of the relay (counted from 0) be the first that
  fails. The relay returns an error; the messages written are exactly the first \<open>k\<close> of
  the sequence; the failed write is the last write the relay attempts, so no TRACE,
  EXPLANATION or END follows; and the explainer was called for the first
  \<open>(k + 1) div 2\<close> frames only, those whose TRACE was written, and for no later frame.
\<close>

theorem send_failure_stops_relay:
  assumes "runs w runID = Some run"
      and "k \<le> 2 * length (Trace run)"
      and "\<forall>j < k. WriteErr e (writes w + j) = None"
      and "WriteErr e (writes w + k) = Some err"
  shows "\<exists>xs w'. streamRun e runID m w =
            (Some (if k = 2 * length (Trace run) then err
                   else (if even k then ''failed to send trace: ''
                         else ''failed to send explanation: '') @ err), w') \<and>
          length xs = length (Trace run) \<and>
          outbox w' = outbox w @ take k (pairMsgs (Trace run) xs @ [endMsg]) \<and>
          writes w' = writes w + k + 1 \<and>
          explain_calls w' =
            explain_calls w @ take ((k + 1) div 2) (callsFor w runID m 0 (Trace run))"
proof (cases "k = 2 * length (Trace run)")
  case True
  let ?fs = "Trace run"
  have pre: "\<forall>j < 2 * length ?fs. WriteErr e (writes w + j) = None"
    using assms(3) True by simp
  from streamFrames_ok [OF pre, of runID m 0] obtain rs w1 where
    loop: "streamFrames e runID m 0 ?fs w = (None, w1)" "length rs = length ?fs"
          "outbox w1 = outbox w @ pairMsgs ?fs (map explanationOf rs)"
          "writes w1 = writes w + 2 * length ?fs"
          "explain_calls w1 = explain_calls w @ callsFor w runID m 0 ?fs"
    by blast
  have last: "WriteErr e (writes w1) = Some err" using assms(4) True loop(4) by simp
  let ?w' = "w1\<lparr>writes := Suc (writes w1)\<rparr>"
  have run: "streamRun e runID m w = (Some err, ?w')"
    using assms(1) loop(1) by (simp add: streamRun_def WriteJSON_fail [OF last])
  have len: "length (pairMsgs ?fs (map explanationOf rs)) = k"
    using length_pairMsgs [of "map explanationOf rs" ?fs] loop(2) True by simp
  have "streamRun e runID m w =
          (Some (if k = 2 * length ?fs then err
                 else (if even k then ''failed to send trace: ''
                       else ''failed to send explanation: '') @ err), ?w') \<and>
        length (map explanationOf rs) = length ?fs \<and>
        outbox ?w' = outbox w @ take k (pairMsgs ?fs (map explanationOf rs) @ [endMsg]) \<and>
        writes ?w' = writes w + k + 1 \<and>
        explain_calls ?w' = explain_calls w @ take ((k + 1) div 2) (callsFor w runID m 0 ?fs)"
    using run loop True len by (simp add: length_callsFor)
  then show ?thesis by blast
next
  case False
  let ?fs = "Trace run"
  have lt: "k < 2 * length ?fs" using assms(2) False by simp
  from streamFrames_fail [OF lt assms(3) assms(4), of runID m 0] obtain xs w' where
    loop: "streamFrames e runID m 0 ?fs w =
             (Some ((if even k then ''failed to send trace: ''
                     else ''failed to send explanation: '') @ err), w')"
          "length xs = length ?fs"
          "outbox w' = outbox w @ take k (pairMsgs ?fs xs)"
          "writes w' = writes w + k + 1"
          "explain_calls w' = explain_calls w @ take ((k + 1) div 2) (callsFor w runID m 0 ?fs)"
    by blast
  have len: "k \<le> length (pairMsgs ?fs xs)"
    using length_pairMsgs [OF loop(2)] lt by simp
  have "streamRun e runID m w =
          (Some (if k = 2 * length ?fs then err
                 else (if even k then ''failed to send trace: ''
                       else ''failed to send explanation: '') @ err), w') \<and>
        length xs = length ?fs \<and>
        outbox w' = outbox w @ take k (pairMsgs ?fs xs @ [endMsg]) \<and>
        writes w' = writes w + k + 1 \<and>
        explain_calls w' = explain_calls w @ take ((k + 1) div 2) (callsFor w runID m 0 ?fs)"
    using assms(1) loop False len by (simp add: streamRun_def)
  then show ?thesis by blast
qed

theorem send_failure_stops_relay_witness:
  "fst (streamRun (demoEnv\<lparr>WriteErr := (\<lambda>k. if k = 1 then Some ''broken pipe'' else None)\<rparr>)
          ''r1'' (Fin 1) demoWorld) = Some ''failed to send explanation: broken pipe'' \<and>
   length (outbox (snd (streamRun
      (demoEnv\<lparr>WriteErr := (\<lambda>k. if k = 1 then Some ''broken pipe'' else None)\<rparr>)
      ''r1'' (Fin 1) demoWorld))) = 1 \<and>
   writes (snd (streamRun
      (demoEnv\<lparr>WriteErr := (\<lambda>k. if k = 1 then Some ''broken pipe'' else None)\<rparr>)
      ''r1'' (Fin 1) demoWorld)) = 2 \<and>
   length (explain_calls (snd (streamRun
      (demoEnv\<lparr>WriteErr := (\<lambda>k. if k = 1 then Some ''broken pipe'' else None)\<rparr>)
      ''r1'' (Fin 1) demoWorld))) = 1"
proof -
  let ?e = "demoEnv\<lparr>WriteErr := (\<lambda>k. if k = 1 then Some ''broken pipe'' else None)\<rparr>"
  have h1: "runs demoWorld ''r1'' = Some demoRun" by (simp add: demoWorld_def)
  have n: "length (Trace demoRun) = 2" by (simp add: demoRun_def)
  have h2: "1 \<le> 2 * length (Trace demoRun)" by (simp add: n)
  have h3: "\<forall>j < 1. WriteErr ?e (writes demoWorld + j) = None" by (simp add: demoWorld_def)
  have h4: "WriteErr ?e (writes demoWorld + 1) = Some ''broken pipe''" by (simp add: demoWorld_def)
  have z: "outbox demoWorld = []" "writes demoWorld = 0" "explain_calls demoWorld = []"
    by (simp_all add: demoWorld_def)
  from send_failure_stops_relay [OF h1 h2 h3 h4, of "Fin 1"] obtain xs w' where
    r: "streamRun ?e ''r1'' (Fin 1) demoWorld =
          (Some (if (1::nat) = 2 * length (Trace demoRun) then ''broken pipe''
                 else (if even (1::nat) then ''failed to send trace: ''
                       else ''failed to send explanation: '') @ ''broken pipe''), w')"
       "length xs = length (Trace demoRun)"
       "outbox w' = outbox demoWorld @ take 1 (pairMsgs (Trace demoRun) xs @ [endMsg])"
       "writes w' = writes demoWorld + 1 + 1"
       "explain_calls w' =
          explain_calls demoWorld @ take ((1 + 1) div 2) (callsFor demoWorld ''r1'' (Fin 1) 0 (Trace demoRun))"
    by blast
  have "length (pairMsgs (Trace demoRun) xs) = 4"
    using length_pairMsgs [OF r(2)] n by simp
  then show ?thesis using r z n by (simp add: length_callsFor)
qed

subsection \<open>The speed multiplier\<close>

text \<open>
  Claim C3, refuted as stated. The request \<open>speed=-2\<close> scans to \<open>-2\<close>, which is neither
  1.0 nor positive; the handler runs the relay with this value, and the relay writes it
  into the summary of the steps it serves.
\<close>

theorem nonpositive_speed_counterexample:
  "speedParam demoEnv (Query_Get [(''runId'', ''r1''), (''speed'', ''-2'')] ''speed'') = Fin (- 2) \<and>
   \<not> positive (speedParam demoEnv (Query_Get [(''runId'', ''r1''), (''speed'', ''-2'')] ''speed'')) \<and>
   speedParam demoEnv (Query_Get [(''runId'', ''r1''), (''speed'', ''-2'')] ''speed'') \<noteq> Fin 1 \<and>
   snd (explain_calls
          (snd (handleWebSocket demoEnv [(''runId'', ''r1''), (''speed'', ''-2'')] demoWorld)) ! 0)
     ''speedMultiplier'' = Some (GFloat (Fin (- 2)))"
  by (simp add: speedParam_def Query_Get_def demoEnv_def scanSignedDigits_def digitOf_def
        positive_def Let_def
        handleWebSocket_def streamRun_def demoWorld_def demoRun_def streamFrames.simps
        WriteJSON_def callPythonExplain_def explainRequest_def userBehaviorFor_def
        getBehaviorSignal_def)

text \<open>
  Claim C3, amended. Let the request name a run and the upgrade succeed, and let \<open>mult\<close> be
  1.0 when the speed parameter is absent or empty or when the scan of it fails, and the
  scanned value, whatever its sign, when the scan succeeds. Then the handler does what the
  relay does with the multiplier \<open>mult\<close> (followed by the ERROR message when the relay
  returns an error), and every explainer call of this attachment gets the frame of its
  step and a summary whose \<open>speedMultiplier\<close> is \<open>mult\<close>.
\<close>

theorem speed_defaulting:
  assumes "Query_Get q ''runId'' = runID" and "runID \<noteq> ''''" and "UpgradeOK e"
      and "(Query_Get q ''speed'' = '''' \<and> mult = Fin 1) \<or>
           (Sscanf_f e (Query_Get q ''speed'') = None \<and> mult = Fin 1) \<or>
           (Query_Get q ''speed'' \<noteq> '''' \<and> Sscanf_f e (Query_Get q ''speed'') = Some mult)"
  shows "handleWebSocket e q w =
           (case streamRun e runID mult w of
              (Some err, w1) \<Rightarrow> (Served (Some err), snd (WriteJSON e (errorMsg err) w1))
            | (None, w1) \<Rightarrow> (Served None, w1)) \<and>
         (\<forall>run i. runs w runID = Some run \<and>
             i < length (explain_calls (snd (handleWebSocket e q w))) - length (explain_calls w) \<longrightarrow>
             fst (explain_calls (snd (handleWebSocket e q w)) ! (length (explain_calls w) + i)) =
               Trace run ! i \<and>
             snd (explain_calls (snd (handleWebSocket e q w)) ! (length (explain_calls w) + i))
               ''speedMultiplier'' = Some (GFloat mult))"
proof -
  have sp: "speedParam e (Query_Get q ''speed'') = mult"
    using assms(4) by (auto simp: speedParam_def)
  have hw: "handleWebSocket e q w =
              (case streamRun e runID mult w of
                 (Some err, w1) \<Rightarrow> (Served (Some err), snd (WriteJSON e (errorMsg err) w1))
               | (None, w1) \<Rightarrow> (Served None, w1))"
    using assms(1,2,3) sp by (simp add: handleWebSocket_def Let_def)
  obtain r w1 where s: "streamRun e runID mult w = (r, w1)" by fastforce
  have ec: "explain_calls (snd (handleWebSocket e q w)) =
              explain_calls (snd (streamRun e runID mult w))"
    unfolding hw s by (cases r) (simp_all add: WriteJSON_def split: option.splits)
  have sm: "\<forall>run i. runs w runID = Some run \<and>
             i < length (explain_calls (snd (handleWebSocket e q w))) - length (explain_calls w) \<longrightarrow>
             fst (explain_calls (snd (handleWebSocket e q w)) ! (length (explain_calls w) + i)) =
               Trace run ! i \<and>
             snd (explain_calls (snd (handleWebSocket e q w)) ! (length (explain_calls w) + i))
               ''speedMultiplier'' = Some (GFloat mult)"
  proof (intro allI impI)
    fix run i
    assume a: "runs w runID = Some run \<and>
               i < length (explain_calls (snd (handleWebSocket e q w))) - length (explain_calls w)"
    then have run: "runs w runID = Some run" by simp
    from streamRun_calls [OF run, of e mult] obtain c where
      c: "explain_calls (snd (streamRun e runID mult w)) =
            explain_calls w @ take c (callsFor w runID mult 0 (Trace run))" by blast
    have i: "i < c" "i < length (Trace run)"
      using a c ec by (simp_all add: length_callsFor)
    have "explain_calls (snd (handleWebSocket e q w)) ! (length (explain_calls w) + i) =
            callsFor w runID mult 0 (Trace run) ! i"
      using c ec i by (simp add: nth_append)
    also have "\<dots> = (Trace run ! i, userBehaviorFor w runID (int i) mult)"
      using nth_callsFor [OF i(2), of w runID mult 0] by simp
    finally show
      "fst (explain_calls (snd (handleWebSocket e q w)) ! (length (explain_calls w) + i)) =
         Trace run ! i \<and>
       snd (explain_calls (snd (handleWebSocket e q w)) ! (length (explain_calls w) + i))
         ''speedMultiplier'' = Some (GFloat mult)"
      by (simp add: userBehaviorFor_def)
  qed
  show ?thesis by (intro conjI) (rule hw sm)+
qed

lemma demo_attach_calls:
  "length (explain_calls (snd (handleWebSocket demoEnv [(''runId'', ''r1'')] demoWorld))) = 2 \<and>
   length (explain_calls
     (snd (handleWebSocket demoEnv [(''runId'', ''r1''), (''speed'', ''fast'')] demoWorld))) = 2 \<and>
   length (explain_calls
     (snd (handleWebSocket demoEnv [(''runId'', ''r1''), (''speed'', ''0'')] demoWorld))) = 2"
  by (simp add: speedParam_def Query_Get_def demoEnv_def scanSignedDigits_def digitOf_def
        Let_def handleWebSocket_def streamRun_def demoWorld_def demoRun_def streamFrames.simps
        WriteJSON_def callPythonExplain_def explainRequest_def)

theorem speed_defaulting_witness:
  "snd (explain_calls (snd (handleWebSocket demoEnv [(''runId'', ''r1'')] demoWorld)) ! 1)
     ''speedMultiplier'' = Some (GFloat (Fin 1)) \<and>
   snd (explain_calls
          (snd (handleWebSocket demoEnv [(''runId'', ''r1''), (''speed'', ''fast'')] demoWorld)) ! 1)
     ''speedMultiplier'' = Some (GFloat (Fin 1)) \<and>
   snd (explain_calls
          (snd (handleWebSocket demoEnv [(''runId'', ''r1''), (''speed'', ''0'')] demoWorld)) ! 1)
     ''speedMultiplier'' = Some (GFloat (Fin 0)) \<and>
   fst (explain_calls
          (snd (handleWebSocket demoEnv [(''runId'', ''r1''), (''speed'', ''0'')] demoWorld)) ! 1) =
     frameB"
proof -
  let ?q0 = "[(''runId'', ''r1'')]"
  let ?q1 = "[(''runId'', ''r1''), (''speed'', ''fast'')]"
  let ?q2 = "[(''runId'', ''r1''), (''speed'', ''0'')]"
  have id: "Query_Get ?q0 ''runId'' = ''r1''" "Query_Get ?q1 ''runId'' = ''r1''"
           "Query_Get ?q2 ''runId'' = ''r1''"
    by (simp_all add: Query_Get_def)
  have ne: "''r1'' \<noteq> ''''" by simp
  have up: "UpgradeOK demoEnv" by (simp add: demoEnv_def)
  have s0: "(Query_Get ?q0 ''speed'' = '''' \<and> Fin 1 = Fin 1) \<or>
            (Sscanf_f demoEnv (Query_Get ?q0 ''speed'') = None \<and> Fin 1 = Fin 1) \<or>
            (Query_Get ?q0 ''speed'' \<noteq> '''' \<and> Sscanf_f demoEnv (Query_Get ?q0 ''speed'') = Some (Fin 1))"
    by (simp add: Query_Get_def)
  have s1: "(Query_Get ?q1 ''speed'' = '''' \<and> Fin 1 = Fin 1) \<or>
            (Sscanf_f demoEnv (Query_Get ?q1 ''speed'') = None \<and> Fin 1 = Fin 1) \<or>
            (Query_Get ?q1 ''speed'' \<noteq> '''' \<and> Sscanf_f demoEnv (Query_Get ?q1 ''speed'') = Some (Fin 1))"
    by (simp add: Query_Get_def demoEnv_def scanSignedDigits_def digitOf_def)
  have s2: "(Query_Get ?q2 ''speed'' = '''' \<and> Fin 0 = Fin 1) \<or>
            (Sscanf_f demoEnv (Query_Get ?q2 ''speed'') = None \<and> Fin 0 = Fin 1) \<or>
            (Query_Get ?q2 ''speed'' \<noteq> '''' \<and> Sscanf_f demoEnv (Query_Get ?q2 ''speed'') = Some (Fin 0))"
    by (simp add: Query_Get_def demoEnv_def scanSignedDigits_def digitOf_def)
  have r: "runs demoWorld ''r1'' = Some demoRun" by (simp add: demoWorld_def)
  have n: "length (explain_calls demoWorld) = 0" by (simp add: demoWorld_def)
  have t: "Trace demoRun ! 1 = frameB" by (simp add: demoRun_def)
  have a0: "runs demoWorld ''r1'' = Some demoRun \<and>
            1 < length (explain_calls (snd (handleWebSocket demoEnv ?q0 demoWorld))) -
                length (explain_calls demoWorld)"
    using r n demo_attach_calls by simp
  have a1: "runs demoWorld ''r1'' = Some demoRun \<and>
            1 < length (explain_calls (snd (handleWebSocket demoEnv ?q1 demoWorld))) -
                length (explain_calls demoWorld)"
    using r n demo_attach_calls by simp
  have a2: "runs demoWorld ''r1'' = Some demoRun \<and>
            1 < length (explain_calls (snd (handleWebSocket demoEnv ?q2 demoWorld))) -
                length (explain_calls demoWorld)"
    using r n demo_attach_calls by simp
  have c0: "snd (explain_calls (snd (handleWebSocket demoEnv ?q0 demoWorld)) ! 1)
              ''speedMultiplier'' = Some (GFloat (Fin 1))"
    using speed_defaulting [OF id(1) ne up s0, of demoWorld, THEN conjunct2, rule_format, OF a0] n
    by simp
  have c1: "snd (explain_calls (snd (handleWebSocket demoEnv ?q1 demoWorld)) ! 1)
              ''speedMultiplier'' = Some (GFloat (Fin 1))"
    using speed_defaulting [OF id(2) ne up s1, of demoWorld, THEN conjunct2, rule_format, OF a1] n
    by simp
  have c2: "snd (explain_calls (snd (handleWebSocket demoEnv ?q2 demoWorld)) ! 1)
              ''speedMultiplier'' = Some (GFloat (Fin 0)) \<and>
            fst (explain_calls (snd (handleWebSocket demoEnv ?q2 demoWorld)) ! 1) = frameB"
    using speed_defaulting [OF id(3) ne up s2, of demoWorld, THEN conjunct2, rule_format, OF a2] n t
    by simp
  show ?thesis using c0 c1 c2 by simp
qed

subsection \<open>The summary without a recorded signal\<close>


subsection \<open>Creating a run\<close>

text \<open>
  Claim C7. A create-run request (a POST whose body decodes) with an empty array is
  answered with status 400; the state is returned as it was, so no post to the trace
  generator is made (\<open>posts\<close> is unchanged) and no run is added (\<open>runs\<close> is unchanged).
\<close>

theorem empty_array_rejected:
  assumes "Method r = ''POST''"
      and "DecodeCreate e (Body r) = Some (algorithmID, [])"
  shows "handleRunCreate e r w = (\<lparr>Status = 400, Payload = Text ''Array cannot be empty''\<rparr>, w)"
  using assms by (simp add: handleRunCreate_def http_Error_def)

theorem empty_array_rejected_witness:
  "handleRunCreate (demoEnv\<lparr>DecodeCreate := (\<lambda>body. Some (''bubble_sort'', []))\<rparr>)
     \<lparr>Method = ''POST'', Body = ''{}''\<rparr> demoWorld =
   (\<lparr>Status = 400, Payload = Text ''Array cannot be empty''\<rparr>, demoWorld)"
  using empty_array_rejected
    [of "\<lparr>Method = ''POST'', Body = ''{}''\<rparr>"
        "demoEnv\<lparr>DecodeCreate := (\<lambda>body. Some (''bubble_sort'', []))\<rparr>" "''bubble_sort''" demoWorld]
  by (simp add: demoEnv_def)

text \<open>
  Claim C8. When the post to the trace generator fails (the collaborator is unreachable)
  or is answered with a status other than 200, \<open>createRun\<close> returns an error that
  carries the upstream detail, the handler answers with status 500 and that detail, and the
  table of runs is as before: the only change of the state is the logged post.
\<close>

theorem trace_generation_failure:
  assumes "Method r = ''POST''"
      and "DecodeCreate e (Body r) = Some (algorithmID, array)"
      and "array \<noteq> []"
      and "Marshal e [''algorithmId'' \<mapsto> GStr algorithmID, ''array'' \<mapsto> GIntSlice array] = Inr jsonData"
      and "(Post e (length (posts w)) (pythonBaseURL @ ''/execute'') jsonData = Inl err \<and>
            detail = ''failed to call Python backend: '' @ err) \<or>
           (Post e (length (posts w)) (pythonBaseURL @ ''/execute'') jsonData = Inr resp \<and>
            StatusCode resp \<noteq> 200 \<and>
            detail = ''Python backend returned error: '' @ RespBody resp)"
  shows "fst (createRun e algorithmID array w) = Inl detail \<and>
         handleRunCreate e r w =
           (\<lparr>Status = 500, Payload = Text (''Failed to create run: '' @ detail)\<rparr>,
            w\<lparr>posts := posts w @ [(pythonBaseURL @ ''/execute'', jsonData)]\<rparr>) \<and>
         runs (snd (handleRunCreate e r w)) = runs w"
  using assms
  by (auto simp: handleRunCreate_def createRun_def callPythonExecute_def http_Error_def Let_def)

theorem trace_generation_failure_witness:
  "handleRunCreate (demoEnv\<lparr>Post := (\<lambda>k url body. Inl ''connection refused'')\<rparr>)
     \<lparr>Method = ''POST'', Body = ''{}''\<rparr> demoWorld =
     (\<lparr>Status = 500,
       Payload = Text ''Failed to create run: failed to call Python backend: connection refused''\<rparr>,
      demoWorld\<lparr>posts := [(''http://localhost:8000/execute'', ''{}'')]\<rparr>) \<and>
   handleRunCreate (demoEnv\<lparr>Post := (\<lambda>k url body. Inr \<lparr>StatusCode = 503, RespBody = ''busy''\<rparr>)\<rparr>)
     \<lparr>Method = ''POST'', Body = ''{}''\<rparr> demoWorld =
     (\<lparr>Status = 500,
       Payload = Text ''Failed to create run: Python backend returned error: busy''\<rparr>,
      demoWorld\<lparr>posts := [(''http://localhost:8000/execute'', ''{}'')]\<rparr>)"
  using trace_generation_failure
    [of "\<lparr>Method = ''POST'', Body = ''{}''\<rparr>"
        "demoEnv\<lparr>Post := (\<lambda>k url body. Inl ''connection refused'')\<rparr>"
        "''bubble_sort''" "[5, 2]" "''{}''" demoWorld "''connection refused''"
        "''failed to call Python backend: connection refused''"]
    trace_generation_failure
    [of "\<lparr>Method = ''POST'', Body = ''{}''\<rparr>"
        "demoEnv\<lparr>Post := (\<lambda>k url body. Inr \<lparr>StatusCode = 503, RespBody = ''busy''\<rparr>)\<rparr>"
        "''bubble_sort''" "[5, 2]" "''{}''" demoWorld _
        "''Python backend returned error: busy''" "\<lparr>StatusCode = 503, RespBody = ''busy''\<rparr>"]
  by (simp add: demoEnv_def demoWorld_def pythonBaseURL_def)

subsection \<open>Attaching to an unknown run\<close>



subsection \<open>A run without frames\<close>

text \<open>
  Claim C10. For a stored run with an empty trace, and a connection that accepts the
  write, the relay returns without error, the only message written is END with
  \<open>{"message": "Visualization complete"}\<close>, and nothing else of the state changes, so the
  explainer is not called.
\<close>

theorem empty_trace_only_end:
  assumes "runs w runID = Some run"
      and "Trace run = []"
      and "WriteErr e (writes w) = None"
  shows "streamRun e runID m w =
           (None, w\<lparr>outbox := outbox w @ [endMsg], writes := Suc (writes w)\<rparr>) \<and>
         endMsg ''type'' = Some (GStr ''END'') \<and>
         endMsg ''data'' = Some (GMap [''message'' \<mapsto> GStr ''Visualization complete''])"
  using assms by (simp add: streamRun_def WriteJSON_ok endMsg_def)

theorem empty_trace_only_end_witness:
  "streamRun demoEnv ''r0''  (Fin 1)
     (demoWorld\<lparr>runs := [''r0'' \<mapsto> demoRun\<lparr>RunID := ''r0'', Trace := []\<rparr>]\<rparr>) =
   (None, demoWorld\<lparr>runs := [''r0'' \<mapsto> demoRun\<lparr>RunID := ''r0'', Trace := []\<rparr>],
                    outbox := [endMsg], writes := 1\<rparr>)"
  using empty_trace_only_end
    [of "demoWorld\<lparr>runs := [''r0'' \<mapsto> demoRun\<lparr>RunID := ''r0'', Trace := []\<rparr>]\<rparr>" "''r0''"
        "demoRun\<lparr>RunID := ''r0'', Trace := []\<rparr>" demoEnv "Fin 1"]
  by (simp add: demoWorld_def demoEnv_def)

end
